theory Spec2Isabelle
  imports Main "HOL-Library.Word" "HOL-Library.Monad_Syntax"
begin

unbundle bit_operations_syntax

section \<open>Data model\<close>

type_synonym u8 = "8 word"
type_synonym u32 = "32 word"

text \<open>
  A pointer argument (\<open>void const *\<close>) is modelled by the bytes found at the pointer and
  after it: \<open>buf k\<close> is the byte at offset \<open>k\<close>. Pointer arithmetic \<open>data + i\<close> is a shift of
  that view.
\<close>

type_synonym buffer = "nat \<Rightarrow> u8"

text \<open>
  Everything the programmer does to its environment is recorded, in order, as an event:
  the four transport operations, the delays, the log lines (format string and the 32-bit
  arguments printed) and the status callback.
\<close>

datatype event =
    EvInit
  | EvReset
  | EvWrite u32 u32
  | EvRead u32 u32
  | EvDelayMs nat
  | EvDelayTicks nat
  | EvLogE string "u32 list"
  | EvLogI string
  | EvPrintf string "u32 list"
  | EvStatus u32 int int

text \<open>
  Modelled from the spec: the header \<open>rvswd.h\<close> is not part of the sources. Section 6 of
  the specification gives the transport as four operations \<open>init\<close>, \<open>reset\<close>, \<open>read\<close>,
  \<open>write\<close> on a handle, with a result type that has at least the variants OK and FAIL.
  The result type is a C enumeration, so a result is an integer; the values of the two
  enumerators are fields of the interface. The hardware behind the handle is a state of
  an arbitrary type \<open>'h\<close>; a read yields the value left in the output variable.
\<close>

record 'h rvswd =
  RVSWD_OK :: int
  RVSWD_FAIL :: int
  rvswd_init :: "'h \<Rightarrow> int \<times> 'h"
  rvswd_reset :: "'h \<Rightarrow> int \<times> 'h"
  rvswd_write :: "'h \<Rightarrow> u32 \<Rightarrow> u32 \<Rightarrow> int \<times> 'h"
  rvswd_read :: "'h \<Rightarrow> u32 \<Rightarrow> int \<times> u32 \<times> 'h"

record 'h world =
  hw :: 'h
  trace :: "event list"

definition emit :: "event \<Rightarrow> 'h world \<Rightarrow> 'h world" where
  "emit e w = w\<lparr>trace := trace w @ [e]\<rparr>"

text \<open>The calls of the transport as the source makes them: the result code is dropped.\<close>

definition do_init :: "'h rvswd \<Rightarrow> 'h world \<Rightarrow> int \<times> 'h world" where
  "do_init T w =
     (let (res, h) = rvswd_init T (hw w) in (res, \<lparr>hw = h, trace = trace w @ [EvInit]\<rparr>))"

definition do_reset :: "'h rvswd \<Rightarrow> 'h world \<Rightarrow> int \<times> 'h world" where
  "do_reset T w =
     (let (res, h) = rvswd_reset T (hw w) in (res, \<lparr>hw = h, trace = trace w @ [EvReset]\<rparr>))"

definition do_write :: "'h rvswd \<Rightarrow> u32 \<Rightarrow> u32 \<Rightarrow> 'h world \<Rightarrow> 'h world" where
  "do_write T reg v w =
     \<lparr>hw = snd (rvswd_write T (hw w) reg v), trace = trace w @ [EvWrite reg v]\<rparr>"

definition do_read :: "'h rvswd \<Rightarrow> u32 \<Rightarrow> 'h world \<Rightarrow> u32 \<times> 'h world" where
  "do_read T reg w =
     (let (res, v, h) = rvswd_read T (hw w) reg
      in (v, \<lparr>hw = h, trace = trace w @ [EvRead reg v]\<rparr>))"

subsection \<open>Constants of the source\<close>

definition CH32_REG_DEBUG_DATA0 :: u32 where "CH32_REG_DEBUG_DATA0 = 0x04"
definition CH32_REG_DEBUG_DMCONTROL :: u32 where "CH32_REG_DEBUG_DMCONTROL = 0x10"
definition CH32_REG_DEBUG_DMSTATUS :: u32 where "CH32_REG_DEBUG_DMSTATUS = 0x11"
definition CH32_REG_DEBUG_COMMAND :: u32 where "CH32_REG_DEBUG_COMMAND = 0x17"
definition CH32_REG_DEBUG_PROGBUF0 :: u32 where "CH32_REG_DEBUG_PROGBUF0 = 0x20"

definition CH32_REGS_GPR :: "16 word" where "CH32_REGS_GPR = 0x1000"

definition CH32_FLASH_STATR :: u32 where "CH32_FLASH_STATR = 0x4002200C"
definition CH32_FLASH_CTLR :: u32 where "CH32_FLASH_CTLR = 0x40022010"
definition CH32_FLASH_ADDR :: u32 where "CH32_FLASH_ADDR = 0x40022014"

definition CH32_FLASH_STATR_BUSY :: u32 where "CH32_FLASH_STATR_BUSY = push_bit 0 1"
definition CH32_FLASH_STATR_WRBUSY :: u32 where "CH32_FLASH_STATR_WRBUSY = push_bit 1 1"

definition CH32_FLASH_CTLR_STRT :: u32 where "CH32_FLASH_CTLR_STRT = push_bit 6 1"
definition CH32_FLASH_CTLR_FTPG :: u32 where "CH32_FLASH_CTLR_FTPG = push_bit 16 1"
definition CH32_FLASH_CTLR_FTER :: u32 where "CH32_FLASH_CTLR_FTER = push_bit 17 1"
definition CH32_FLASH_CTLR_PGSTRT :: u32 where "CH32_FLASH_CTLR_PGSTRT = push_bit 21 1"

section \<open>CPU control\<close>

text \<open>
  Each polling loop is \<open>while (1)\<close> with a \<open>uint8_t\<close> counter. The loop function returns
  \<open>True\<close> where the source leaves the loop by \<open>break\<close>, and \<open>False\<close> where it returns the
  failure from inside the loop.
\<close>

function halt_poll :: "'h rvswd \<Rightarrow> u8 \<Rightarrow> 'h world \<Rightarrow> bool \<times> 'h world" where
  "halt_poll T timeout w =
     (let (v, w1) = do_read T CH32_REG_DEBUG_DMSTATUS w in
      if (drop_bit 8 v) AND 3 = 3 then (True, w1)
      else if timeout = 0 then
        (False, emit (EvLogE ''Failed to halt microprocessor, DMSTATUS=%x'' [v]) w1)
      else halt_poll T (timeout - 1) (emit (EvDelayMs 10) w1))"
  by pat_completeness auto
termination
  by (relation "measure (\<lambda>(T, timeout, w). unat timeout)") (auto simp: unat_minus_one unat_gt_0)

declare halt_poll.simps [simp del]

text \<open>On the timeout the source returns \<open>false\<close>, which is the enumeration value 0.\<close>

definition ch32_halt_microprocessor :: "'h rvswd \<Rightarrow> 'h world \<Rightarrow> int \<times> 'h world" where
  "ch32_halt_microprocessor T w =
     (let w1 = do_write T CH32_REG_DEBUG_DMCONTROL 0x80000001 w;
          w2 = do_write T CH32_REG_DEBUG_DMCONTROL 0x80000001 w1;
          (halted, w3) = halt_poll T 5 w2
      in if \<not> halted then (0, w3)
         else
           (let w4 = do_write T CH32_REG_DEBUG_DMCONTROL 0x00000001 w3;
                w5 = emit (EvLogI ''Microprocessor halted'') w4
            in (RVSWD_OK T, w5)))"

function resume_poll :: "'h rvswd \<Rightarrow> u8 \<Rightarrow> 'h world \<Rightarrow> bool \<times> 'h world" where
  "resume_poll T timeout w =
     (let (v, w1) = do_read T CH32_REG_DEBUG_DMSTATUS w in
      if (drop_bit 10 v) AND 3 = 3 then (True, w1)
      else if timeout = 0 then
        (False, emit (EvLogE ''Failed to resume microprocessor, DMSTATUS=%x'' [v]) w1)
      else resume_poll T (timeout - 1) (emit (EvDelayMs 10) w1))"
  by pat_completeness auto
termination
  by (relation "measure (\<lambda>(T, timeout, w). unat timeout)") (auto simp: unat_minus_one unat_gt_0)

declare resume_poll.simps [simp del]

definition ch32_resume_microprocessor :: "'h rvswd \<Rightarrow> 'h world \<Rightarrow> int \<times> 'h world" where
  "ch32_resume_microprocessor T w =
     (let w1 = do_write T CH32_REG_DEBUG_DMCONTROL 0x80000001 w;
          w2 = do_write T CH32_REG_DEBUG_DMCONTROL 0x80000001 w1;
          w3 = do_write T CH32_REG_DEBUG_DMCONTROL 0x00000001 w2;
          w4 = do_write T CH32_REG_DEBUG_DMCONTROL 0x40000001 w3;
          (resumed, w5) = resume_poll T 5 w4
      in if \<not> resumed then (RVSWD_FAIL T, w5) else (RVSWD_OK T, w5))"

function reset_poll :: "'h rvswd \<Rightarrow> u8 \<Rightarrow> 'h world \<Rightarrow> bool \<times> 'h world" where
  "reset_poll T timeout w =
     (let (v, w1) = do_read T CH32_REG_DEBUG_DMSTATUS w in
      if (drop_bit 18 v) AND 3 = 3 then (True, w1)
      else if timeout = 0 then
        (False, emit (EvLogE ''Failed to reset microprocessor'' []) w1)
      else reset_poll T (timeout - 1) (emit (EvDelayMs 10) w1))"
  by pat_completeness auto
termination
  by (relation "measure (\<lambda>(T, timeout, w). unat timeout)") (auto simp: unat_minus_one unat_gt_0)

declare reset_poll.simps [simp del]

definition ch32_reset_microprocessor_and_run :: "'h rvswd \<Rightarrow> 'h world \<Rightarrow> int \<times> 'h world" where
  "ch32_reset_microprocessor_and_run T w =
     (let w1 = do_write T CH32_REG_DEBUG_DMCONTROL 0x80000001 w;
          w2 = do_write T CH32_REG_DEBUG_DMCONTROL 0x80000001 w1;
          w3 = do_write T CH32_REG_DEBUG_DMCONTROL 0x00000001 w2;
          w4 = do_write T CH32_REG_DEBUG_DMCONTROL 0x00000003 w3;
          (was_reset, w5) = reset_poll T 5 w4
      in if \<not> was_reset then (RVSWD_FAIL T, w5)
         else
           (let w6 = do_write T CH32_REG_DEBUG_DMCONTROL 0x00000001 w5;
                w7 = emit (EvDelayMs 10) w6;
                w8 = do_write T CH32_REG_DEBUG_DMCONTROL 0x10000001 w7;
                w9 = emit (EvDelayMs 10) w8;
                w10 = do_write T CH32_REG_DEBUG_DMCONTROL 0x00000001 w9;
                w11 = emit (EvDelayMs 10) w10
            in (RVSWD_OK T, w11)))"

section \<open>Abstract command interface\<close>

text \<open>
  The command word is computed in C as \<open>int\<close> from the \<open>uint16_t\<close> register number and
  stored in a \<open>uint32_t\<close>. Both functions return \<open>true\<close> on every path.
\<close>

definition ch32_write_cpu_reg ::
    "'h rvswd \<Rightarrow> 16 word \<Rightarrow> u32 \<Rightarrow> 'h world \<Rightarrow> bool \<times> 'h world" where
  "ch32_write_cpu_reg T regno v w =
     (let command = ucast regno OR push_bit 16 1 OR push_bit 17 1 OR push_bit 20 2
                    OR push_bit 24 0;
          w1 = do_write T CH32_REG_DEBUG_DATA0 v w;
          w2 = do_write T CH32_REG_DEBUG_COMMAND command w1
      in (True, w2))"

definition ch32_read_cpu_reg ::
    "'h rvswd \<Rightarrow> 16 word \<Rightarrow> 'h world \<Rightarrow> bool \<times> u32 \<times> 'h world" where
  "ch32_read_cpu_reg T regno w =
     (let command = ucast regno OR push_bit 16 0 OR push_bit 17 1 OR push_bit 20 2
                    OR push_bit 24 0;
          w1 = do_write T CH32_REG_DEBUG_COMMAND command w;
          (value_out, w2) = do_read T CH32_REG_DEBUG_DATA0 w1
      in (True, value_out, w2))"

text \<open>
  \<open>memcpy\<close> into an array of \<open>uint32_t\<close>: the targets of this component are
  little-endian, so four consecutive bytes make a word with the first byte lowest.
\<close>

definition le_word :: "u8 \<Rightarrow> u8 \<Rightarrow> u8 \<Rightarrow> u8 \<Rightarrow> u32" where
  "le_word b0 b1 b2 b3 =
     ucast b0 OR push_bit 8 (ucast b1) OR push_bit 16 (ucast b2) OR push_bit 24 (ucast b3)"

definition word_bytes :: "u32 \<Rightarrow> u8 list" where
  "word_bytes x = [ucast x, ucast (drop_bit 8 x), ucast (drop_bit 16 x), ucast (drop_bit 24 x)]"

text \<open>\<open>uint32_t tmp[8] = {0}; memcpy(tmp, code, code_size)\<close>, as the 32 bytes of \<open>tmp\<close>.\<close>

definition progbuf_bytes :: "buffer \<Rightarrow> u32 \<Rightarrow> nat \<Rightarrow> u8" where
  "progbuf_bytes code code_size k = (if k < unat code_size then code k else 0)"

definition progbuf_word :: "buffer \<Rightarrow> u32 \<Rightarrow> nat \<Rightarrow> u32" where
  "progbuf_word code code_size i =
     le_word (progbuf_bytes code code_size (4 * i)) (progbuf_bytes code code_size (4 * i + 1))
             (progbuf_bytes code code_size (4 * i + 2)) (progbuf_bytes code code_size (4 * i + 3))"

definition ch32_run_debug_code ::
    "'h rvswd \<Rightarrow> buffer \<Rightarrow> u32 \<Rightarrow> 'h world \<Rightarrow> bool \<times> 'h world" where
  "ch32_run_debug_code T code code_size w =
     (if code_size > 8 * 4 then
        (False, emit (EvLogE ''Debug program is too long (%zd/%zd)'' [code_size, 8 * 4]) w)
      else if code_size AND 1 \<noteq> 0 then
        (False, emit (EvLogE ''Debug program size must be a multiple of 2 (%zd)'' [code_size]) w)
      else
        (let w1 = fold (\<lambda>i. do_write T (CH32_REG_DEBUG_PROGBUF0 + of_nat i)
                                 (progbuf_word code code_size i)) [0..<8] w;
             command = push_bit 17 0 OR push_bit 18 1 OR push_bit 20 2 OR push_bit 24 0;
             w2 = do_write T CH32_REG_DEBUG_COMMAND command w1
         in (True, w2)))"

section \<open>Memory bridge\<close>

definition buffer_of :: "u8 list \<Rightarrow> buffer" where
  "buffer_of bs k = (if k < length bs then bs ! k else 0)"

definition ch32_readmem :: "u8 list" where
  "ch32_readmem = [0x88, 0x41, 0x02, 0x90]"

definition ch32_writemem :: "u8 list" where
  "ch32_writemem = [0x88, 0xc1, 0x02, 0x90]"

definition ch32_read_memory_word ::
    "'h rvswd \<Rightarrow> u32 \<Rightarrow> 'h world \<Rightarrow> bool \<times> u32 \<times> 'h world" where
  "ch32_read_memory_word T address w =
     (let (r1, w1) = ch32_write_cpu_reg T (CH32_REGS_GPR + 11) address w;
          (r2, w2) = ch32_run_debug_code T (buffer_of ch32_readmem)
                       (of_nat (length ch32_readmem)) w1;
          (r3, value_out, w3) = ch32_read_cpu_reg T (CH32_REGS_GPR + 10) w2
      in (True, value_out, w3))"

definition ch32_write_memory_word ::
    "'h rvswd \<Rightarrow> u32 \<Rightarrow> u32 \<Rightarrow> 'h world \<Rightarrow> bool \<times> 'h world" where
  "ch32_write_memory_word T address v w =
     (let (r1, w1) = ch32_write_cpu_reg T (CH32_REGS_GPR + 10) v w;
          (r2, w2) = ch32_write_cpu_reg T (CH32_REGS_GPR + 11) address w1;
          (r3, w3) = ch32_run_debug_code T (buffer_of ch32_writemem)
                       (of_nat (length ch32_writemem)) w2
      in (True, w3))"

section \<open>Flash programmer\<close>

text \<open>
  The two waits on the flash status register have no bound in the source. A wait that
  never ends is the value \<open>None\<close>, and so is every operation that contains one.
\<close>

partial_function (option) wait_flash_loop ::
    "'h rvswd \<Rightarrow> u32 \<Rightarrow> 'h world \<Rightarrow> 'h world option" where
  "wait_flash_loop T v w =
     (if v AND CH32_FLASH_STATR_BUSY \<noteq> 0 then
        (let w1 = emit (EvDelayTicks 1) w;
             (r, v', w2) = ch32_read_memory_word T CH32_FLASH_STATR w1
         in wait_flash_loop T v' w2)
      else Some w)"

declare wait_flash_loop.simps [code]

definition ch32_wait_flash :: "'h rvswd \<Rightarrow> 'h world \<Rightarrow> 'h world option" where
  "ch32_wait_flash T w =
     (let (r, v, w1) = ch32_read_memory_word T CH32_FLASH_STATR w
      in wait_flash_loop T v w1)"

partial_function (option) wait_flash_write_loop ::
    "'h rvswd \<Rightarrow> u32 \<Rightarrow> 'h world \<Rightarrow> 'h world option" where
  "wait_flash_write_loop T v w =
     (if v AND CH32_FLASH_STATR_WRBUSY \<noteq> 0 then
        (let (r, v', w1) = ch32_read_memory_word T CH32_FLASH_STATR w
         in wait_flash_write_loop T v' w1)
      else Some w)"

declare wait_flash_write_loop.simps [code]

definition ch32_wait_flash_write :: "'h rvswd \<Rightarrow> 'h world \<Rightarrow> 'h world option" where
  "ch32_wait_flash_write T w =
     (let (r, v, w1) = ch32_read_memory_word T CH32_FLASH_STATR w
      in wait_flash_write_loop T v w1)"

definition ch32_unlock_flash :: "'h rvswd \<Rightarrow> 'h world \<Rightarrow> bool \<times> 'h world" where
  "ch32_unlock_flash T w =
     (let (r0, ctlr, w1) = ch32_read_memory_word T CH32_FLASH_CTLR w;
          w2 = emit (EvPrintf ''CTLR before unlock: %08x'' [ctlr]) w1;
          (r1, w3) = ch32_write_memory_word T 0x40022004 0x45670123 w2;
          (r2, w4) = ch32_write_memory_word T 0x40022004 0xCDEF89AB w3;
          (r3, w5) = ch32_write_memory_word T 0x40022008 0x45670123 w4;
          (r4, w6) = ch32_write_memory_word T 0x40022008 0xCDEF89AB w5;
          (r5, w7) = ch32_write_memory_word T 0x40022024 0x45670123 w6;
          (r6, w8) = ch32_write_memory_word T 0x40022024 0xCDEF89AB w7;
          (r7, ctlr', w9) = ch32_read_memory_word T CH32_FLASH_CTLR w8;
          w10 = emit (EvPrintf ''CTLR after unlock: %08x'' [ctlr']) w9
      in (\<not> (ctlr' AND 0x8080 \<noteq> 0), w10))"

definition ch32_erase_flash_block ::
    "'h rvswd \<Rightarrow> u32 \<Rightarrow> 'h world \<Rightarrow> (bool \<times> 'h world) option" where
  "ch32_erase_flash_block T addr w =
     (if addr mod 256 \<noteq> 0 then Some (False, w)
      else do {
        w1 \<leftarrow> ch32_wait_flash T w;
        let w2 = snd (ch32_write_memory_word T CH32_FLASH_CTLR CH32_FLASH_CTLR_FTER w1);
        let w3 = snd (ch32_write_memory_word T CH32_FLASH_ADDR addr w2);
        let w4 = snd (ch32_write_memory_word T CH32_FLASH_CTLR
                        (CH32_FLASH_CTLR_FTER OR CH32_FLASH_CTLR_STRT) w3);
        w5 \<leftarrow> ch32_wait_flash T w4;
        let w6 = snd (ch32_write_memory_word T CH32_FLASH_CTLR 0 w5);
        Some (True, w6)
      })"

text \<open>\<open>uint32_t wdata[64]; memcpy(wdata, data, sizeof(wdata))\<close>: 256 bytes are read.\<close>

definition load_words :: "buffer \<Rightarrow> nat \<Rightarrow> u32 list" where
  "load_words data n =
     map (\<lambda>i. le_word (data (4 * i)) (data (4 * i + 1)) (data (4 * i + 2)) (data (4 * i + 3)))
       [0..<n]"

function write_words ::
    "'h rvswd \<Rightarrow> u32 \<Rightarrow> u32 list \<Rightarrow> nat \<Rightarrow> 'h world \<Rightarrow> 'h world option" where
  "write_words T addr wdata i w =
     (if i < 64 then
        do {
          let w1 = snd (ch32_write_memory_word T (addr + of_nat i * 4) (wdata ! i) w);
          w2 \<leftarrow> ch32_wait_flash_write T w1;
          write_words T addr wdata (i + 1) w2
        }
      else Some w)"
  by pat_completeness auto
termination
  by (relation "measure (\<lambda>(T, addr, wdata, i, w). 64 - i)") auto

declare write_words.simps [simp del]

function read_words ::
    "'h rvswd \<Rightarrow> u32 \<Rightarrow> nat \<Rightarrow> u32 list \<Rightarrow> 'h world \<Rightarrow> u32 list \<times> 'h world" where
  "read_words T addr i rdata w =
     (if i < 64 then
        (let w1 = emit (EvDelayTicks 0) w;
             (r, v, w2) = ch32_read_memory_word T (addr + of_nat i * 4) w1
         in read_words T addr (i + 1) (rdata @ [v]) w2)
      else (rdata, w))"
  by pat_completeness auto
termination
  by (relation "measure (\<lambda>(T, addr, i, rdata, w). 64 - i)") auto

declare read_words.simps [simp del]

text \<open>\<open>memcmp\<close> over the 256 bytes of the two word arrays: non-zero when they differ.\<close>

definition memcmp_words :: "u32 list \<Rightarrow> u32 list \<Rightarrow> bool" where
  "memcmp_words xs ys = (concat (map word_bytes xs) \<noteq> concat (map word_bytes ys))"

definition dump_words :: "u32 list \<Rightarrow> event list" where
  "dump_words ws = map (\<lambda>i. EvLogE ''%zx: %08x'' [of_nat i, ws ! i]) [0..<64]"

definition mismatch_log :: "u32 \<Rightarrow> u32 list \<Rightarrow> u32 list \<Rightarrow> event list" where
  "mismatch_log addr wdata rdata =
     [EvLogE ''Write block mismatch at %08x'' [addr], EvLogE ''Write:'' []]
     @ dump_words wdata @ [EvLogE ''Read:'' []] @ dump_words rdata"

definition ch32_write_flash_block ::
    "'h rvswd \<Rightarrow> u32 \<Rightarrow> buffer \<Rightarrow> 'h world \<Rightarrow> (bool \<times> 'h world) option" where
  "ch32_write_flash_block T addr data w =
     (if addr mod 256 \<noteq> 0 then Some (False, w)
      else do {
        w1 \<leftarrow> ch32_wait_flash T w;
        let w2 = snd (ch32_write_memory_word T CH32_FLASH_CTLR CH32_FLASH_CTLR_FTPG w1);
        let w3 = snd (ch32_write_memory_word T CH32_FLASH_ADDR addr w2);
        let wdata = load_words data 64;
        w4 \<leftarrow> write_words T addr wdata 0 w3;
        let w5 = snd (ch32_write_memory_word T CH32_FLASH_CTLR
                        (CH32_FLASH_CTLR_FTPG OR CH32_FLASH_CTLR_PGSTRT) w4);
        w6 \<leftarrow> ch32_wait_flash T w5;
        let w7 = snd (ch32_write_memory_word T CH32_FLASH_CTLR 0 w6);
        let w8 = emit (EvDelayTicks 1) w7;
        let (rdata, w9) = read_words T addr 0 [] w8;
        if memcmp_words wdata rdata then
          Some (False, w9\<lparr>trace := trace w9 @ mismatch_log addr wdata rdata\<rparr>)
        else Some (True, w9)
      })"

text \<open>
  The two halves of \<open>ch32_write_flash_block\<close> on an aligned address, named so that they
  can be spoken about: the programming sequence up to the settling delay, and the
  read-back with the comparison.
\<close>

definition block_program ::
    "'h rvswd \<Rightarrow> u32 \<Rightarrow> u32 list \<Rightarrow> 'h world \<Rightarrow> 'h world option" where
  "block_program T addr wdata w =
     do {
       w1 \<leftarrow> ch32_wait_flash T w;
       let w2 = snd (ch32_write_memory_word T CH32_FLASH_CTLR CH32_FLASH_CTLR_FTPG w1);
       let w3 = snd (ch32_write_memory_word T CH32_FLASH_ADDR addr w2);
       w4 \<leftarrow> write_words T addr wdata 0 w3;
       let w5 = snd (ch32_write_memory_word T CH32_FLASH_CTLR
                       (CH32_FLASH_CTLR_FTPG OR CH32_FLASH_CTLR_PGSTRT) w4);
       w6 \<leftarrow> ch32_wait_flash T w5;
       let w7 = snd (ch32_write_memory_word T CH32_FLASH_CTLR 0 w6);
       Some (emit (EvDelayTicks 1) w7)
     }"

definition block_read_back :: "'h rvswd \<Rightarrow> u32 \<Rightarrow> 'h world \<Rightarrow> u32 list" where
  "block_read_back T addr w = fst (read_words T addr 0 [] w)"

definition block_verify ::
    "'h rvswd \<Rightarrow> u32 \<Rightarrow> u32 list \<Rightarrow> 'h world \<Rightarrow> bool \<times> 'h world" where
  "block_verify T addr wdata w =
     (let (rdata, w9) = read_words T addr 0 [] w in
      if memcmp_words wdata rdata then
        (False, w9\<lparr>trace := trace w9 @ mismatch_log addr wdata rdata\<rparr>)
      else (True, w9))"

text \<open>
  \<open>size_t\<close> has 32 bits on the targets of this component, so \<open>i += 256\<close> wraps at
  \<open>2^32\<close>; the callback takes \<open>i\<close> and \<open>data_len\<close> as \<open>int\<close>.
\<close>

partial_function (option) write_flash_loop ::
    "'h rvswd \<Rightarrow> u32 \<Rightarrow> buffer \<Rightarrow> u32 \<Rightarrow> u32 \<Rightarrow> 'h world \<Rightarrow> (bool \<times> 'h world) option" where
  "write_flash_loop T addr data data_len i w =
     (if i < data_len then
        do {
          let w1 = emit (EvDelayTicks 0) w;
          let w2 = emit (EvStatus (addr + i) (sint i) (sint data_len)) w1;
          (erased, w3) \<leftarrow> ch32_erase_flash_block T (addr + i) w2;
          if \<not> erased then
            Some (False, emit (EvLogE ''Error: Failed to erase FLASH at %08x'' [addr + i]) w3)
          else do {
            (written, w4) \<leftarrow> ch32_write_flash_block T (addr + i) (\<lambda>k. data (unat i + k)) w3;
            if \<not> written then
              Some (False, emit (EvLogE ''Error: Failed to write FLASH at %08x'' [addr + i]) w4)
            else write_flash_loop T addr data data_len (i + 256) w4
          }
        }
      else Some (True, w))"

declare write_flash_loop.simps [code]

definition ch32_write_flash ::
    "'h rvswd \<Rightarrow> u32 \<Rightarrow> buffer \<Rightarrow> u32 \<Rightarrow> 'h world \<Rightarrow> (bool \<times> 'h world) option" where
  "ch32_write_flash T addr data data_len w =
     (if addr mod 64 \<noteq> 0 then Some (False, w)
      else write_flash_loop T addr data data_len 0 w)"

section \<open>Programming orchestrator\<close>

text \<open>The function is \<open>void\<close>: all that is left of a run is the world it ends in.\<close>

definition ch32_program ::
    "'h rvswd \<Rightarrow> buffer \<Rightarrow> u32 \<Rightarrow> 'h world \<Rightarrow> 'h world option" where
  "ch32_program T firmware firmware_len w =
     (let (res, w1) = do_init T w in
      if res \<noteq> RVSWD_OK T then Some (emit (EvLogE ''Init error %u!'' [word_of_int res]) w1)
      else
        (let (res, w2) = do_reset T w1 in
         if res \<noteq> RVSWD_OK T then
           Some (emit (EvLogE ''Reset error %u!'' [word_of_int res]) w2)
         else
           (let (res, w3) = ch32_halt_microprocessor T w2 in
            if res \<noteq> RVSWD_OK T then Some (emit (EvLogE ''Failed to halt'' []) w3)
            else
              (let (bool_res, w4) = ch32_unlock_flash T w3;
                   w5 = emit (EvPrintf (if bool_res then ''Unlock: yes'' else ''Unlock: no'') [])
                          w4
               in if \<not> bool_res then Some (emit (EvLogE ''Failed to unlock'' []) w5)
                  else do {
                    (bool_res, w6) \<leftarrow> ch32_write_flash T 0x08000000 firmware firmware_len w5;
                    if \<not> bool_res then Some (emit (EvLogE ''Failed to write flash'' []) w6)
                    else
                      (let (res, w7) = ch32_reset_microprocessor_and_run T w6 in
                       if res \<noteq> RVSWD_OK T then
                         Some (emit (EvLogE ''Failed to reset and run'' []) w7)
                       else Some (emit (EvLogI ''Okay!'') w7))
                  }))))"

section \<open>Simulated targets\<close>

text \<open>
  A target whose every register reads the same value \<open>v\<close>. It numbers the results as
  a C enumeration that lists OK first.
\<close>

definition stuck_target :: "u32 \<Rightarrow> unit rvswd" where
  "stuck_target v =
     \<lparr>RVSWD_OK = 0, RVSWD_FAIL = 1,
      rvswd_init = (\<lambda>h. (0, h)), rvswd_reset = (\<lambda>h. (0, h)),
      rvswd_write = (\<lambda>h reg x. (0, h)),
      rvswd_read = (\<lambda>h reg. (0, v, h))\<rparr>"

definition start :: "'h \<Rightarrow> 'h world" where
  "start h = \<lparr>hw = h, trace = []\<rparr>"

section \<open>Observations on traces\<close>

fun is_status_poll :: "event \<Rightarrow> bool" where
  "is_status_poll (EvRead reg v) = (reg = CH32_REG_DEBUG_DMSTATUS)"
| "is_status_poll _ = False"

fun is_delay :: "event \<Rightarrow> bool" where
  "is_delay (EvDelayMs n) = True"
| "is_delay (EvDelayTicks n) = True"
| "is_delay _ = False"

fun is_access :: "event \<Rightarrow> bool" where
  "is_access EvInit = True"
| "is_access EvReset = True"
| "is_access (EvWrite reg v) = True"
| "is_access (EvRead reg v) = True"
| "is_access _ = False"

definition polls :: "event list \<Rightarrow> nat" where
  "polls tr = length (filter is_status_poll tr)"

definition delays :: "event list \<Rightarrow> nat" where
  "delays tr = length (filter is_delay tr)"

text \<open>The status register of the target never shows \<open>0b11\<close> in bits \<open>k+1\<close> and \<open>k\<close>.\<close>

definition status_never :: "'h rvswd \<Rightarrow> nat \<Rightarrow> bool" where
  "status_never T k =
     (\<forall>h. drop_bit k (fst (snd (rvswd_read T h CH32_REG_DEBUG_DMSTATUS))) AND 3 \<noteq> 3)"

text \<open>
  The register traffic of one word written to and one word read from target memory, and
  of one run of a one-instruction snippet: the constants are the register numbers and
  the command words the debug module receives.
\<close>

definition progbuf_events :: "u32 \<Rightarrow> event list" where
  "progbuf_events insn =
     [EvWrite 0x20 insn, EvWrite 0x21 0, EvWrite 0x22 0, EvWrite 0x23 0,
      EvWrite 0x24 0, EvWrite 0x25 0, EvWrite 0x26 0, EvWrite 0x27 0,
      EvWrite 0x17 0x00240000]"

definition mem_write_events :: "u32 \<Rightarrow> u32 \<Rightarrow> event list" where
  "mem_write_events address v =
     [EvWrite 0x04 v, EvWrite 0x17 0x0023100A, EvWrite 0x04 address, EvWrite 0x17 0x0023100B]
     @ progbuf_events 0x9002C188"

definition mem_read_events :: "u32 \<Rightarrow> u32 \<Rightarrow> event list" where
  "mem_read_events address v =
     [EvWrite 0x04 address, EvWrite 0x17 0x0023100B]
     @ progbuf_events 0x90024188 @ [EvWrite 0x17 0x0022100A, EvRead 0x04 v]"

text \<open>The code of a debug program, padded with zero bytes to the 32 bytes of the buffer.\<close>

definition zero_padded :: "buffer \<Rightarrow> nat \<Rightarrow> u8 list" where
  "zero_padded code n = map code [0..<n] @ replicate (32 - n) 0"

text \<open>
  The words of the specification for writing a range: the chunks are taken one after the
  other; for each the progress is reported, the block is erased, then programmed, and the
  first failure ends the run. Chunk \<open>k\<close> is at byte offset \<open>256 * k\<close>.
\<close>

fun flash_chunks ::
    "'h rvswd \<Rightarrow> u32 \<Rightarrow> buffer \<Rightarrow> u32 \<Rightarrow> nat list \<Rightarrow> 'h world \<Rightarrow> (bool \<times> 'h world) option" where
  "flash_chunks T addr data data_len [] w = Some (True, w)"
| "flash_chunks T addr data data_len (k # ks) w =
     (let a = addr + of_nat (256 * k);
          w1 = emit (EvDelayTicks 0) w;
          w2 = emit (EvStatus a (int (256 * k)) (int (unat data_len))) w1
      in case ch32_erase_flash_block T a w2 of
           None \<Rightarrow> None
         | Some (erased, w3) \<Rightarrow>
             if \<not> erased then
               Some (False, emit (EvLogE ''Error: Failed to erase FLASH at %08x'' [a]) w3)
             else
               (case ch32_write_flash_block T a (\<lambda>j. data (256 * k + j)) w3 of
                  None \<Rightarrow> None
                | Some (written, w4) \<Rightarrow>
                    if \<not> written then
                      Some (False, emit (EvLogE ''Error: Failed to write FLASH at %08x'' [a]) w4)
                    else flash_chunks T addr data data_len ks w4))"

text \<open>
  One chunk of that run with what follows it left open; the loop of the source and the
  run over the list of chunks are both built from it.
\<close>

definition chunk_step ::
    "'h rvswd \<Rightarrow> u32 \<Rightarrow> buffer \<Rightarrow> u32 \<Rightarrow> nat \<Rightarrow> 'h world
      \<Rightarrow> ('h world \<Rightarrow> (bool \<times> 'h world) option) \<Rightarrow> (bool \<times> 'h world) option" where
  "chunk_step T addr data data_len k w rest =
     (let a = addr + of_nat (256 * k);
          w1 = emit (EvDelayTicks 0) w;
          w2 = emit (EvStatus a (int (256 * k)) (int (unat data_len))) w1
      in case ch32_erase_flash_block T a w2 of
           None \<Rightarrow> None
         | Some (erased, w3) \<Rightarrow>
             if \<not> erased then
               Some (False, emit (EvLogE ''Error: Failed to erase FLASH at %08x'' [a]) w3)
             else
               (case ch32_write_flash_block T a (\<lambda>j. data (256 * k + j)) w3 of
                  None \<Rightarrow> None
                | Some (written, w4) \<Rightarrow>
                    if \<not> written then
                      Some (False, emit (EvLogE ''Error: Failed to write FLASH at %08x'' [a]) w4)
                    else rest w4))"

text \<open>
  The same run seen as block cycles: cycle \<open>k\<close> erases block \<open>k\<close>, then programs and
  verifies it with the 64 words of chunk \<open>k\<close>.
\<close>

definition chunk_words :: "buffer \<Rightarrow> nat \<Rightarrow> u32 list" where
  "chunk_words data k = load_words (\<lambda>j. data (256 * k + j)) 64"

fun block_cycles ::
    "'h rvswd \<Rightarrow> u32 \<Rightarrow> buffer \<Rightarrow> u32 \<Rightarrow> nat list \<Rightarrow> 'h world \<Rightarrow> (bool \<times> 'h world) option" where
  "block_cycles T addr data data_len [] w = Some (True, w)"
| "block_cycles T addr data data_len (k # ks) w =
     (let a = addr + of_nat (256 * k);
          w1 = emit (EvDelayTicks 0) w;
          w2 = emit (EvStatus a (int (256 * k)) (int (unat data_len))) w1
      in case ch32_erase_flash_block T a w2 of
           None \<Rightarrow> None
         | Some (erased, w3) \<Rightarrow>
             if \<not> erased then
               Some (False, emit (EvLogE ''Error: Failed to erase FLASH at %08x'' [a]) w3)
             else
               (case block_program T a (chunk_words data k) w3 of
                  None \<Rightarrow> None
                | Some w8 \<Rightarrow>
                    if \<not> fst (block_verify T a (chunk_words data k) w8) then
                      Some (False, emit (EvLogE ''Error: Failed to write FLASH at %08x'' [a])
                                     (snd (block_verify T a (chunk_words data k) w8)))
                    else block_cycles T addr data data_len ks
                           (snd (block_verify T a (chunk_words data k) w8))))"

fun is_status :: "event \<Rightarrow> bool" where
  "is_status (EvStatus a p t) = True"
| "is_status _ = False"

definition callbacks :: "event list \<Rightarrow> nat" where
  "callbacks tr = length (filter is_status tr)"

text \<open>A target whose data register never reads with one of the two busy bits set.\<close>

definition never_busy :: "'h rvswd \<Rightarrow> bool" where
  "never_busy T = (\<forall>h. fst (snd (rvswd_read T h CH32_REG_DEBUG_DATA0)) AND 3 = 0)"

text \<open>What a timed-out polling loop leaves in the trace when the status always reads 0.\<close>

definition timeout_polls :: "event list" where
  "timeout_polls =
     [EvRead 0x11 0, EvDelayMs 10, EvRead 0x11 0, EvDelayMs 10, EvRead 0x11 0, EvDelayMs 10,
      EvRead 0x11 0, EvDelayMs 10, EvRead 0x11 0, EvDelayMs 10, EvRead 0x11 0]"

section \<open>Basic facts\<close>

lemma trace_emit [simp]: "trace (emit e w) = trace w @ [e]"
  by (simp add: emit_def)

lemma hw_emit [simp]: "hw (emit e w) = hw w"
  by (simp add: emit_def)

lemma trace_do_write [simp]: "trace (do_write T reg v w) = trace w @ [EvWrite reg v]"
  by (simp add: do_write_def)

lemma hw_do_write [simp]: "hw (do_write T reg v w) = snd (rvswd_write T (hw w) reg v)"
  by (simp add: do_write_def)

lemma fst_do_read [simp]: "fst (do_read T reg w) = fst (snd (rvswd_read T (hw w) reg))"
  by (simp add: do_read_def split: prod.splits)

lemma trace_do_read [simp]:
  "trace (snd (do_read T reg w)) = trace w @ [EvRead reg (fst (do_read T reg w))]"
  by (simp add: do_read_def split: prod.splits)

lemma hw_do_read [simp]: "hw (snd (do_read T reg w)) = snd (snd (rvswd_read T (hw w) reg))"
  by (simp add: do_read_def split: prod.splits)

lemma polls_append [simp]: "polls (xs @ ys) = polls xs + polls ys"
  by (simp add: polls_def)

lemma delays_append [simp]: "delays (xs @ ys) = delays xs + delays ys"
  by (simp add: delays_def)

lemma polls_Nil [simp]: "polls [] = 0"
  by (simp add: polls_def)

lemma polls_Cons [simp]: "polls (e # es) = (if is_status_poll e then 1 else 0) + polls es"
  by (simp add: polls_def)

lemma delays_Nil [simp]: "delays [] = 0"
  by (simp add: delays_def)

lemma delays_Cons [simp]: "delays (e # es) = (if is_delay e then 1 else 0) + delays es"
  by (simp add: delays_def)

subsection \<open>Register traffic of the abstract commands\<close>

lemma upt_8: "[0..<8] = [0, 1, 2, 3, 4, 5, 6, 7]"
  by code_simp

lemma trace_fold_do_write:
  "trace (fold (\<lambda>i. do_write T (r i) (v i)) xs w) = trace w @ map (\<lambda>i. EvWrite (r i) (v i)) xs"
  by (induction xs arbitrary: w) simp_all

lemma fst_write_cpu_reg [simp]: "fst (ch32_write_cpu_reg T regno v w) = True"
  by (simp add: ch32_write_cpu_reg_def)

lemma trace_write_cpu_reg:
  "trace (snd (ch32_write_cpu_reg T regno v w)) =
     trace w @ [EvWrite 0x04 v, EvWrite 0x17 (ucast regno OR 0x00230000)]"
  by (simp add: ch32_write_cpu_reg_def CH32_REG_DEBUG_DATA0_def CH32_REG_DEBUG_COMMAND_def
      ac_simps)

lemma fst_read_cpu_reg [simp]: "fst (ch32_read_cpu_reg T regno w) = True"
  by (simp add: ch32_read_cpu_reg_def split: prod.splits)

lemma trace_read_cpu_reg:
  "trace (snd (snd (ch32_read_cpu_reg T regno w))) =
     trace w @ [EvWrite 0x17 (ucast regno OR 0x00220000),
                EvRead 0x04 (fst (snd (ch32_read_cpu_reg T regno w)))]"
  by (simp add: ch32_read_cpu_reg_def CH32_REG_DEBUG_DATA0_def CH32_REG_DEBUG_COMMAND_def
      ac_simps split: prod.splits)

lemma zero_padded_nth:
  assumes "n \<le> 32" "k < 32"
  shows "zero_padded code n ! k = (if k < n then code k else 0)"
  using assms by (simp add: zero_padded_def nth_append)

lemma progbuf_word_padded:
  assumes "unat code_size \<le> 32" "i < 8"
  shows "progbuf_word code code_size i =
         le_word (zero_padded code (unat code_size) ! (4 * i))
                 (zero_padded code (unat code_size) ! (4 * i + 1))
                 (zero_padded code (unat code_size) ! (4 * i + 2))
                 (zero_padded code (unat code_size) ! (4 * i + 3))"
  using assms by (simp add: progbuf_word_def progbuf_bytes_def zero_padded_nth)

lemma word_and_1_odd: "((c::u32) AND 1 \<noteq> 0) = odd (unat c)"
proof -
  have "unat (c AND 1) = unat c mod 2"
    by (simp add: and_one_eq unat_mod)
  moreover have "(c AND 1 = 0) = (unat (c AND 1) = 0)"
    by (simp add: unat_eq_0)
  ultimately show ?thesis by (simp add: odd_iff_mod_2_eq_one)
qed

lemma word_mod_256: "((a::u32) mod 256 \<noteq> 0) = (\<not> 256 dvd unat a)"
proof -
  have "unat (a mod 256) = unat a mod 256"
    by (simp add: unat_mod)
  moreover have "(a mod 256 = 0) = (unat (a mod 256) = 0)"
    by (simp add: unat_eq_0)
  ultimately show ?thesis by (simp add: dvd_eq_mod_eq_0)
qed

lemma word_mod_64: "((a::u32) mod 64 \<noteq> 0) = (\<not> 64 dvd unat a)"
proof -
  have "unat (a mod 64) = unat a mod 64"
    by (simp add: unat_mod)
  moreover have "(a mod 64 = 0) = (unat (a mod 64) = 0)"
    by (simp add: unat_eq_0)
  ultimately show ?thesis by (simp add: dvd_eq_mod_eq_0)
qed

lemma word_gt_32: "(32 < (c::u32)) = (32 < unat c)"
  by (simp add: word_less_nat_alt)

lemma run_debug_code_rejects:
  assumes "32 < unat code_size \<or> odd (unat code_size)"
  shows "\<exists>msg args. ch32_run_debug_code T code code_size w = (False, emit (EvLogE msg args) w)"
proof (cases "32 < unat code_size")
  case True
  then show ?thesis by (simp add: ch32_run_debug_code_def word_gt_32) blast
next
  case False
  with assms have "odd (unat code_size)" by simp
  with False show ?thesis
    by (simp add: ch32_run_debug_code_def word_gt_32 word_and_1_odd) blast
qed

lemma run_debug_code_accepts:
  assumes "unat code_size \<le> 32" "even (unat code_size)"
  shows "fst (ch32_run_debug_code T code code_size w)"
    and "trace (snd (ch32_run_debug_code T code code_size w)) =
           trace w
           @ map (\<lambda>i. EvWrite (0x20 + of_nat i) (progbuf_word code code_size i)) [0..<8]
           @ [EvWrite 0x17 0x00240000]"
  using assms
  by (simp_all add: ch32_run_debug_code_def word_gt_32 word_and_1_odd trace_fold_do_write
      CH32_REG_DEBUG_PROGBUF0_def CH32_REG_DEBUG_COMMAND_def)

lemma snippet_word:
  "progbuf_word (buffer_of [b0, b1, b2, b3]) 4 i = (if i = 0 then le_word b0 b1 b2 b3 else 0)"
  by (cases i) (simp_all add: progbuf_word_def progbuf_bytes_def buffer_of_def le_word_def)

lemma run_snippet:
  "fst (ch32_run_debug_code T (buffer_of [b0, b1, b2, b3]) 4 w)"
  "trace (snd (ch32_run_debug_code T (buffer_of [b0, b1, b2, b3]) 4 w)) =
     trace w @ progbuf_events (le_word b0 b1 b2 b3)"
  by (simp_all add: run_debug_code_accepts snippet_word upt_8 progbuf_events_def)

lemma fst_write_memory_word [simp]: "fst (ch32_write_memory_word T address v w) = True"
  by (simp add: ch32_write_memory_word_def case_prod_beta)

lemma fst_read_memory_word [simp]: "fst (ch32_read_memory_word T address w) = True"
  by (simp add: ch32_read_memory_word_def case_prod_beta)

lemma trace_write_memory_word:
  "trace (snd (ch32_write_memory_word T address v w)) = trace w @ mem_write_events address v"
  by (simp add: ch32_write_memory_word_def case_prod_beta trace_write_cpu_reg run_snippet
      ch32_writemem_def mem_write_events_def CH32_REGS_GPR_def le_word_def)

lemma trace_read_memory_word:
  "trace (snd (snd (ch32_read_memory_word T address w))) =
     trace w @ mem_read_events address (fst (snd (ch32_read_memory_word T address w)))"
  by (simp add: ch32_read_memory_word_def case_prod_beta trace_write_cpu_reg run_snippet
      trace_read_cpu_reg ch32_readmem_def mem_read_events_def CH32_REGS_GPR_def le_word_def)

section \<open>CPU control: what the polling loops do\<close>

lemma halt_poll_never:
  assumes "status_never T 8"
  shows "\<not> fst (halt_poll T t w)
       \<and> polls (trace (snd (halt_poll T t w))) = polls (trace w) + unat t + 1
       \<and> delays (trace (snd (halt_poll T t w))) = delays (trace w) + unat t"
  using assms
proof (induction T t w rule: halt_poll.induct)
  case (1 T t w)
  obtain v w1 where r: "do_read T CH32_REG_DEBUG_DMSTATUS w = (v, w1)"
    by (cases "do_read T CH32_REG_DEBUG_DMSTATUS w")
  have v: "v = fst (snd (rvswd_read T (hw w) CH32_REG_DEBUG_DMSTATUS))"
    using fst_do_read [of T CH32_REG_DEBUG_DMSTATUS w] r by simp
  have nm: "drop_bit 8 v AND 3 \<noteq> 3"
    using "1.prems" v by (simp add: status_never_def)
  have tr: "trace w1 = trace w @ [EvRead CH32_REG_DEBUG_DMSTATUS v]"
    using trace_do_read [of T CH32_REG_DEBUG_DMSTATUS w] r by simp
  show ?case
  proof (cases "t = 0")
    case True
    then show ?thesis
      using nm tr r by (subst (1 2 3) halt_poll.simps) simp
  next
    case False
    have ih: "\<not> fst (halt_poll T (t - 1) (emit (EvDelayMs 10) w1))
       \<and> polls (trace (snd (halt_poll T (t - 1) (emit (EvDelayMs 10) w1))))
           = polls (trace (emit (EvDelayMs 10) w1)) + unat (t - 1) + 1
       \<and> delays (trace (snd (halt_poll T (t - 1) (emit (EvDelayMs 10) w1))))
           = delays (trace (emit (EvDelayMs 10) w1)) + unat (t - 1)"
      using "1.IH" [OF r [symmetric] refl nm False "1.prems"] .
    have u: "unat (t - 1) + 1 = unat t"
      using False by (simp add: unat_minus_one unat_gt_0)
    show ?thesis
      using nm tr r False ih u by (subst (1 2 3) halt_poll.simps) simp
  qed
qed

lemma resume_poll_never:
  assumes "status_never T 10"
  shows "\<not> fst (resume_poll T t w)
       \<and> polls (trace (snd (resume_poll T t w))) = polls (trace w) + unat t + 1
       \<and> delays (trace (snd (resume_poll T t w))) = delays (trace w) + unat t"
  using assms
proof (induction T t w rule: resume_poll.induct)
  case (1 T t w)
  obtain v w1 where r: "do_read T CH32_REG_DEBUG_DMSTATUS w = (v, w1)"
    by (cases "do_read T CH32_REG_DEBUG_DMSTATUS w")
  have v: "v = fst (snd (rvswd_read T (hw w) CH32_REG_DEBUG_DMSTATUS))"
    using fst_do_read [of T CH32_REG_DEBUG_DMSTATUS w] r by simp
  have nm: "drop_bit 10 v AND 3 \<noteq> 3"
    using "1.prems" v by (simp add: status_never_def)
  have tr: "trace w1 = trace w @ [EvRead CH32_REG_DEBUG_DMSTATUS v]"
    using trace_do_read [of T CH32_REG_DEBUG_DMSTATUS w] r by simp
  show ?case
  proof (cases "t = 0")
    case True
    then show ?thesis
      using nm tr r by (subst (1 2 3) resume_poll.simps) simp
  next
    case False
    have ih: "\<not> fst (resume_poll T (t - 1) (emit (EvDelayMs 10) w1))
       \<and> polls (trace (snd (resume_poll T (t - 1) (emit (EvDelayMs 10) w1))))
           = polls (trace (emit (EvDelayMs 10) w1)) + unat (t - 1) + 1
       \<and> delays (trace (snd (resume_poll T (t - 1) (emit (EvDelayMs 10) w1))))
           = delays (trace (emit (EvDelayMs 10) w1)) + unat (t - 1)"
      using "1.IH" [OF r [symmetric] refl nm False "1.prems"] .
    have u: "unat (t - 1) + 1 = unat t"
      using False by (simp add: unat_minus_one unat_gt_0)
    show ?thesis
      using nm tr r False ih u by (subst (1 2 3) resume_poll.simps) simp
  qed
qed

lemma reset_poll_never:
  assumes "status_never T 18"
  shows "\<not> fst (reset_poll T t w)
       \<and> polls (trace (snd (reset_poll T t w))) = polls (trace w) + unat t + 1
       \<and> delays (trace (snd (reset_poll T t w))) = delays (trace w) + unat t"
  using assms
proof (induction T t w rule: reset_poll.induct)
  case (1 T t w)
  obtain v w1 where r: "do_read T CH32_REG_DEBUG_DMSTATUS w = (v, w1)"
    by (cases "do_read T CH32_REG_DEBUG_DMSTATUS w")
  have v: "v = fst (snd (rvswd_read T (hw w) CH32_REG_DEBUG_DMSTATUS))"
    using fst_do_read [of T CH32_REG_DEBUG_DMSTATUS w] r by simp
  have nm: "drop_bit 18 v AND 3 \<noteq> 3"
    using "1.prems" v by (simp add: status_never_def)
  have tr: "trace w1 = trace w @ [EvRead CH32_REG_DEBUG_DMSTATUS v]"
    using trace_do_read [of T CH32_REG_DEBUG_DMSTATUS w] r by simp
  show ?case
  proof (cases "t = 0")
    case True
    then show ?thesis
      using nm tr r by (subst (1 2 3) reset_poll.simps) simp
  next
    case False
    have ih: "\<not> fst (reset_poll T (t - 1) (emit (EvDelayMs 10) w1))
       \<and> polls (trace (snd (reset_poll T (t - 1) (emit (EvDelayMs 10) w1))))
           = polls (trace (emit (EvDelayMs 10) w1)) + unat (t - 1) + 1
       \<and> delays (trace (snd (reset_poll T (t - 1) (emit (EvDelayMs 10) w1))))
           = delays (trace (emit (EvDelayMs 10) w1)) + unat (t - 1)"
      using "1.IH" [OF r [symmetric] refl nm False "1.prems"] .
    have u: "unat (t - 1) + 1 = unat t"
      using False by (simp add: unat_minus_one unat_gt_0)
    show ?thesis
      using nm tr r False ih u by (subst (1 2 3) reset_poll.simps) simp
  qed
qed

lemma stuck_never: "status_never (stuck_target v) k = (drop_bit k v AND 3 \<noteq> 3)"
  by (simp add: status_never_def stuck_target_def)

text \<open>
  On a target whose status register always reads \<open>v\<close>, resume succeeds exactly when
  bits 11 and 10 of \<open>v\<close> are both set.
\<close>

lemma resume_on_stuck_target:
  "fst (ch32_resume_microprocessor (stuck_target v) w) =
     (if drop_bit 10 v AND 3 = 3 then RVSWD_OK (stuck_target v) else RVSWD_FAIL (stuck_target v))"
proof (cases "drop_bit 10 v AND 3 = 3")
  case True
  then show ?thesis
    by (simp add: ch32_resume_microprocessor_def resume_poll.simps [of _ 5] case_prod_beta
        Let_def stuck_target_def)
next
  case False
  then have "status_never (stuck_target v) 10" by (simp add: stuck_never)
  from resume_poll_never [OF this, of 5] False show ?thesis
    by (simp add: ch32_resume_microprocessor_def case_prod_beta Let_def)
qed

text \<open>
  C1. The claim: resume polls the status register and succeeds exactly when bits 17 and 16
  of the value read are both set, as the comment in the source says. The source shifts
  by 10: on a target whose status register always reads \<open>0x00030000\<close> (bits 17 and 16
  set) resume gives up with the failure result, and on one that always reads
  \<open>0x00000C00\<close> (bits 17 and 16 clear, bits 11 and 10 set) it reports success.
\<close>

theorem resume_polls_bits_11_10:
  "drop_bit 16 (0x00030000 :: u32) AND 3 = 3
   \<and> fst (ch32_resume_microprocessor (stuck_target 0x00030000) (start ()))
       = RVSWD_FAIL (stuck_target 0x00030000)
   \<and> drop_bit 16 (0x00000C00 :: u32) AND 3 \<noteq> 3
   \<and> fst (ch32_resume_microprocessor (stuck_target 0x00000C00) (start ()))
       = RVSWD_OK (stuck_target 0x00000C00)
   \<and> RVSWD_OK (stuck_target 0x00000C00) \<noteq> RVSWD_FAIL (stuck_target 0x00000C00)"
  by (simp add: ch32_resume_microprocessor_def resume_poll.simps stuck_target_def start_def
      do_write_def do_read_def emit_def)

text \<open>
  C2, as stated, fails: on a target whose status register always reads 0, and so never
  shows any of the patterns, each of the three operations reads it six times, not five.
\<close>

theorem cpu_control_five_polls_counterexample:
  "status_never (stuck_target 0) 8 \<and> status_never (stuck_target 0) 10
   \<and> status_never (stuck_target 0) 16 \<and> status_never (stuck_target 0) 18
   \<and> polls (trace (snd (ch32_halt_microprocessor (stuck_target 0) (start ())))) = 6
   \<and> polls (trace (snd (ch32_resume_microprocessor (stuck_target 0) (start ())))) = 6
   \<and> polls (trace (snd (ch32_reset_microprocessor_and_run (stuck_target 0) (start ())))) = 6"
proof -
  have "polls (trace (snd (ch32_halt_microprocessor (stuck_target 0) (start ())))) = 6
   \<and> polls (trace (snd (ch32_resume_microprocessor (stuck_target 0) (start ())))) = 6
   \<and> polls (trace (snd (ch32_reset_microprocessor_and_run (stuck_target 0) (start ())))) = 6"
    by (simp add: ch32_halt_microprocessor_def halt_poll.simps
        ch32_resume_microprocessor_def resume_poll.simps
        ch32_reset_microprocessor_and_run_def reset_poll.simps
        stuck_target_def start_def do_write_def do_read_def emit_def)
  then show ?thesis by (simp add: stuck_never)
qed

text \<open>
  C2, amended: when the status register never shows the pattern its loop tests (bits 9:8
  for halt, 11:10 for resume, 19:18 for reset-and-run), each operation stops after exactly
  six reads of the status register, an initial one and five retries, with exactly five
  delays of 10 ms between them; resume and reset-and-run return \<open>RVSWD_FAIL\<close>.
\<close>

theorem cpu_control_timeout:
  "(status_never T 8 \<longrightarrow>
      polls (trace (snd (ch32_halt_microprocessor T w))) = polls (trace w) + 6
      \<and> delays (trace (snd (ch32_halt_microprocessor T w))) = delays (trace w) + 5)
   \<and> (status_never T 10 \<longrightarrow>
      fst (ch32_resume_microprocessor T w) = RVSWD_FAIL T
      \<and> polls (trace (snd (ch32_resume_microprocessor T w))) = polls (trace w) + 6
      \<and> delays (trace (snd (ch32_resume_microprocessor T w))) = delays (trace w) + 5)
   \<and> (status_never T 18 \<longrightarrow>
      fst (ch32_reset_microprocessor_and_run T w) = RVSWD_FAIL T
      \<and> polls (trace (snd (ch32_reset_microprocessor_and_run T w))) = polls (trace w) + 6
      \<and> delays (trace (snd (ch32_reset_microprocessor_and_run T w))) = delays (trace w) + 5)"
proof (intro conjI impI)
  assume n: "status_never T 8"
  show "polls (trace (snd (ch32_halt_microprocessor T w))) = polls (trace w) + 6"
    using halt_poll_never [OF n, of 5]
    by (simp add: ch32_halt_microprocessor_def case_prod_beta Let_def)
  show "delays (trace (snd (ch32_halt_microprocessor T w))) = delays (trace w) + 5"
    using halt_poll_never [OF n, of 5]
    by (simp add: ch32_halt_microprocessor_def case_prod_beta Let_def)
next
  assume n: "status_never T 10"
  show "fst (ch32_resume_microprocessor T w) = RVSWD_FAIL T"
    using resume_poll_never [OF n, of 5]
    by (simp add: ch32_resume_microprocessor_def case_prod_beta Let_def)
  show "polls (trace (snd (ch32_resume_microprocessor T w))) = polls (trace w) + 6"
    using resume_poll_never [OF n, of 5]
    by (simp add: ch32_resume_microprocessor_def case_prod_beta Let_def)
  show "delays (trace (snd (ch32_resume_microprocessor T w))) = delays (trace w) + 5"
    using resume_poll_never [OF n, of 5]
    by (simp add: ch32_resume_microprocessor_def case_prod_beta Let_def)
next
  assume n: "status_never T 18"
  show "fst (ch32_reset_microprocessor_and_run T w) = RVSWD_FAIL T"
    using reset_poll_never [OF n, of 5]
    by (simp add: ch32_reset_microprocessor_and_run_def case_prod_beta Let_def)
  show "polls (trace (snd (ch32_reset_microprocessor_and_run T w))) = polls (trace w) + 6"
    using reset_poll_never [OF n, of 5]
    by (simp add: ch32_reset_microprocessor_and_run_def case_prod_beta Let_def)
  show "delays (trace (snd (ch32_reset_microprocessor_and_run T w))) = delays (trace w) + 5"
    using reset_poll_never [OF n, of 5]
    by (simp add: ch32_reset_microprocessor_and_run_def case_prod_beta Let_def)
qed

theorem cpu_control_timeout_witness:
  "status_never (stuck_target 0) 8 \<and> status_never (stuck_target 0) 10
   \<and> status_never (stuck_target 0) 18
   \<and> polls (trace (snd (ch32_halt_microprocessor (stuck_target 0) (start ())))) = 6
   \<and> delays (trace (snd (ch32_halt_microprocessor (stuck_target 0) (start ())))) = 5
   \<and> fst (ch32_resume_microprocessor (stuck_target 0) (start ())) = 1
   \<and> polls (trace (snd (ch32_resume_microprocessor (stuck_target 0) (start ())))) = 6
   \<and> delays (trace (snd (ch32_resume_microprocessor (stuck_target 0) (start ())))) = 5
   \<and> fst (ch32_reset_microprocessor_and_run (stuck_target 0) (start ())) = 1
   \<and> polls (trace (snd (ch32_reset_microprocessor_and_run (stuck_target 0) (start ())))) = 6
   \<and> delays (trace (snd (ch32_reset_microprocessor_and_run (stuck_target 0) (start ())))) = 5"
proof -
  have n: "status_never (stuck_target 0) 8" "status_never (stuck_target 0) 10"
    "status_never (stuck_target 0) 18"
    by (simp_all add: stuck_never)
  have s: "trace (start ()) = []" "RVSWD_FAIL (stuck_target 0) = 1"
    by (simp_all add: start_def stuck_target_def)
  show ?thesis
    using n s cpu_control_timeout [of "stuck_target 0" "start ()"] by simp
qed

section \<open>Abstract commands and memory bridge: results\<close>

text \<open>
  C9. On every transport, whatever its reads and writes return, the two abstract-command
  operations and the two memory-bridge operations return true.
\<close>

theorem bridge_results_always_true:
  "fst (ch32_write_cpu_reg T regno v w) \<and> fst (ch32_read_cpu_reg T regno w)
   \<and> fst (ch32_read_memory_word T address w) \<and> fst (ch32_write_memory_word T address v w)"
  by simp

text \<open>
  C6. A debug program longer than 32 bytes or of odd length is refused with the result
  false, the transport is not used and its state is unchanged. Any other program is
  accepted: the eight words of the code padded with zero bytes to 32 bytes are written to
  the program-buffer registers \<open>0x20\<close> to \<open>0x27\<close> in this order, followed by one write
  of the command \<open>0x00240000\<close> to the command register \<open>0x17\<close>; in this command
  bit 17 (transfer) is clear, bit 18 (run the program buffer) is set, the width field in
  bits 22:20 is 2 (32 bits) and the command type in bits 31:24 is 0 (access register).
\<close>

theorem run_debug_code_checked:
  "(32 < unat code_size \<or> odd (unat code_size) \<longrightarrow>
      \<not> fst (ch32_run_debug_code T code code_size w)
      \<and> hw (snd (ch32_run_debug_code T code code_size w)) = hw w
      \<and> filter is_access (trace (snd (ch32_run_debug_code T code code_size w)))
          = filter is_access (trace w))
   \<and> (unat code_size \<le> 32 \<and> even (unat code_size) \<longrightarrow>
      fst (ch32_run_debug_code T code code_size w)
      \<and> trace (snd (ch32_run_debug_code T code code_size w)) =
          trace w
          @ map (\<lambda>i. EvWrite (0x20 + of_nat i)
                    (le_word (zero_padded code (unat code_size) ! (4 * i))
                             (zero_padded code (unat code_size) ! (4 * i + 1))
                             (zero_padded code (unat code_size) ! (4 * i + 2))
                             (zero_padded code (unat code_size) ! (4 * i + 3)))) [0..<8]
          @ [EvWrite 0x17 0x00240000])
   \<and> \<not> bit (0x00240000 :: u32) 17 \<and> bit (0x00240000 :: u32) 18
   \<and> take_bit 3 (drop_bit 20 (0x00240000 :: u32)) = 2 \<and> drop_bit 24 (0x00240000 :: u32) = 0"
proof (intro conjI impI)
  assume a: "32 < unat code_size \<or> odd (unat code_size)"
  from run_debug_code_rejects [OF a, of T code w] obtain msg args
    where r: "ch32_run_debug_code T code code_size w = (False, emit (EvLogE msg args) w)"
    by blast
  show "\<not> fst (ch32_run_debug_code T code code_size w)"
    by (simp add: r)
  show "hw (snd (ch32_run_debug_code T code code_size w)) = hw w"
    by (simp add: r)
  show "filter is_access (trace (snd (ch32_run_debug_code T code code_size w)))
          = filter is_access (trace w)"
    by (simp add: r)
next
  assume a: "unat code_size \<le> 32 \<and> even (unat code_size)"
  then have le: "unat code_size \<le> 32" and ev: "even (unat code_size)"
    by simp_all
  show "fst (ch32_run_debug_code T code code_size w)"
    by (rule run_debug_code_accepts (1) [OF le ev])
  have m: "map (\<lambda>i. EvWrite (0x20 + of_nat i) (progbuf_word code code_size i)) [0..<8]
         = map (\<lambda>i. EvWrite (0x20 + of_nat i)
                    (le_word (zero_padded code (unat code_size) ! (4 * i))
                             (zero_padded code (unat code_size) ! (4 * i + 1))
                             (zero_padded code (unat code_size) ! (4 * i + 2))
                             (zero_padded code (unat code_size) ! (4 * i + 3)))) [0..<8]"
    by (rule map_cong) (simp_all add: progbuf_word_padded [OF le])
  show "trace (snd (ch32_run_debug_code T code code_size w)) =
          trace w
          @ map (\<lambda>i. EvWrite (0x20 + of_nat i)
                    (le_word (zero_padded code (unat code_size) ! (4 * i))
                             (zero_padded code (unat code_size) ! (4 * i + 1))
                             (zero_padded code (unat code_size) ! (4 * i + 2))
                             (zero_padded code (unat code_size) ! (4 * i + 3)))) [0..<8]
          @ [EvWrite 0x17 0x00240000]"
    using run_debug_code_accepts (2) [OF le ev, of T code w] m by simp
next
  show "\<not> bit (0x00240000 :: u32) 17" by simp
  show "bit (0x00240000 :: u32) 18" by simp
  show "take_bit 3 (drop_bit 20 (0x00240000 :: u32)) = 2" by simp
  show "drop_bit 24 (0x00240000 :: u32) = 0" by simp
qed

theorem run_debug_code_checked_witness:
  "(32 < unat (34 :: u32) \<or> odd (unat (34 :: u32)))
   \<and> \<not> fst (ch32_run_debug_code (stuck_target 0) (buffer_of ch32_readmem) 34 (start ()))
   \<and> (32 < unat (3 :: u32) \<or> odd (unat (3 :: u32)))
   \<and> \<not> fst (ch32_run_debug_code (stuck_target 0) (buffer_of ch32_readmem) 3 (start ()))
   \<and> (unat (4 :: u32) \<le> 32 \<and> even (unat (4 :: u32)))
   \<and> fst (ch32_run_debug_code (stuck_target 0) (buffer_of ch32_readmem) 4 (start ()))"
  using run_debug_code_checked [of 34 "stuck_target 0" "buffer_of ch32_readmem" "start ()"]
    run_debug_code_checked [of 3 "stuck_target 0" "buffer_of ch32_readmem" "start ()"]
    run_debug_code_checked [of 4 "stuck_target 0" "buffer_of ch32_readmem" "start ()"]
  by simp

section \<open>Flash programmer: unlock and alignment\<close>

text \<open>
  C7. For an address that is not a multiple of 256, erasing a block and writing a block
  both return false at once: the world is the one they were called in, so the transport
  was not used and nothing was logged.
\<close>

theorem block_ops_reject_misaligned:
  assumes "\<not> 256 dvd unat addr"
  shows "ch32_erase_flash_block T addr w = Some (False, w)
       \<and> ch32_write_flash_block T addr data w = Some (False, w)"
  using assms
  by (simp add: ch32_erase_flash_block_def ch32_write_flash_block_def word_mod_256)

theorem block_ops_reject_misaligned_witness:
  "\<not> 256 dvd unat (0x08000040 :: u32)
   \<and> ch32_erase_flash_block (stuck_target 0) 0x08000040 (start ()) = Some (False, start ())
   \<and> ch32_write_flash_block (stuck_target 0) 0x08000040 (\<lambda>k. 0) (start ())
       = Some (False, start ())"
proof -
  have h: "\<not> 256 dvd unat (0x08000040 :: u32)" by simp
  show ?thesis
    using h block_ops_reject_misaligned [OF h, of "stuck_target 0" "start ()" "\<lambda>k. 0"]
    by simp
qed

text \<open>
  C4. On every target and from every world, unlocking reads the flash control register
  \<open>0x40022010\<close>, writes the key \<open>0x45670123\<close> and then the key \<open>0xCDEF89AB\<close> to
  each of the key registers \<open>0x40022004\<close>, \<open>0x40022008\<close> and \<open>0x40022024\<close>, six
  memory writes whatever the first read gave, reads the control register again and returns
  true exactly when the bits of the mask \<open>0x8080\<close> are clear in the value read last.
\<close>

theorem unlock_flash_full_sequence:
  "\<exists>c0 c1.
     trace (snd (ch32_unlock_flash T w)) =
       trace w
       @ mem_read_events 0x40022010 c0 @ [EvPrintf ''CTLR before unlock: %08x'' [c0]]
       @ mem_write_events 0x40022004 0x45670123 @ mem_write_events 0x40022004 0xCDEF89AB
       @ mem_write_events 0x40022008 0x45670123 @ mem_write_events 0x40022008 0xCDEF89AB
       @ mem_write_events 0x40022024 0x45670123 @ mem_write_events 0x40022024 0xCDEF89AB
       @ mem_read_events 0x40022010 c1 @ [EvPrintf ''CTLR after unlock: %08x'' [c1]]
     \<and> fst (ch32_unlock_flash T w) = (c1 AND 0x8080 = 0)"
proof -
  define r0 where "r0 = ch32_read_memory_word T CH32_FLASH_CTLR w"
  define w2 where "w2 = emit (EvPrintf ''CTLR before unlock: %08x'' [fst (snd r0)]) (snd (snd r0))"
  define w3 where "w3 = snd (ch32_write_memory_word T 0x40022004 0x45670123 w2)"
  define w4 where "w4 = snd (ch32_write_memory_word T 0x40022004 0xCDEF89AB w3)"
  define w5 where "w5 = snd (ch32_write_memory_word T 0x40022008 0x45670123 w4)"
  define w6 where "w6 = snd (ch32_write_memory_word T 0x40022008 0xCDEF89AB w5)"
  define w7 where "w7 = snd (ch32_write_memory_word T 0x40022024 0x45670123 w6)"
  define w8 where "w8 = snd (ch32_write_memory_word T 0x40022024 0xCDEF89AB w7)"
  define r7 where "r7 = ch32_read_memory_word T CH32_FLASH_CTLR w8"
  have u: "ch32_unlock_flash T w =
             (fst (snd r7) AND 0x8080 = 0,
              emit (EvPrintf ''CTLR after unlock: %08x'' [fst (snd r7)]) (snd (snd r7)))"
    by (simp add: ch32_unlock_flash_def case_prod_beta Let_def r0_def w2_def w3_def w4_def
        w5_def w6_def w7_def w8_def r7_def)
  have t2: "trace w2 = trace w @ mem_read_events 0x40022010 (fst (snd r0))
              @ [EvPrintf ''CTLR before unlock: %08x'' [fst (snd r0)]]"
    by (simp add: w2_def r0_def trace_read_memory_word CH32_FLASH_CTLR_def)
  have t3: "trace w3 = trace w2 @ mem_write_events 0x40022004 0x45670123"
    by (simp add: w3_def trace_write_memory_word)
  have t4: "trace w4 = trace w3 @ mem_write_events 0x40022004 0xCDEF89AB"
    by (simp add: w4_def trace_write_memory_word)
  have t5: "trace w5 = trace w4 @ mem_write_events 0x40022008 0x45670123"
    by (simp add: w5_def trace_write_memory_word)
  have t6: "trace w6 = trace w5 @ mem_write_events 0x40022008 0xCDEF89AB"
    by (simp add: w6_def trace_write_memory_word)
  have t7: "trace w7 = trace w6 @ mem_write_events 0x40022024 0x45670123"
    by (simp add: w7_def trace_write_memory_word)
  have t8: "trace w8 = trace w7 @ mem_write_events 0x40022024 0xCDEF89AB"
    by (simp add: w8_def trace_write_memory_word)
  have t9: "trace (snd (snd r7)) = trace w8 @ mem_read_events 0x40022010 (fst (snd r7))"
    by (simp add: r7_def trace_read_memory_word CH32_FLASH_CTLR_def)
  show ?thesis
    by (intro exI [of _ "fst (snd r0)"] exI [of _ "fst (snd r7)"])
       (simp add: u t2 t3 t4 t5 t6 t7 t8 t9)
qed

section \<open>Flash programmer: programming a block and verifying it\<close>

lemma le_word_bytes:
  "le_word (ucast x) (ucast (drop_bit 8 x)) (ucast (drop_bit 16 x)) (ucast (drop_bit 24 x)) = x"
proof (rule bit_word_eqI)
  fix n assume n: "n < LENGTH(32)"
  have c: "n < 8 \<or> (8 \<le> n \<and> n < 16) \<or> (16 \<le> n \<and> n < 24) \<or> 24 \<le> n" by arith
  show "bit (le_word (ucast x) (ucast (drop_bit 8 x)) (ucast (drop_bit 16 x))
               (ucast (drop_bit 24 x))) n = bit x n"
    using n c by (auto simp add: le_word_def bit_simps)
qed

lemma word_bytes_inj: "word_bytes x = word_bytes y \<Longrightarrow> x = y"
proof -
  assume a: "word_bytes x = word_bytes y"
  have "le_word (ucast x) (ucast (drop_bit 8 x)) (ucast (drop_bit 16 x)) (ucast (drop_bit 24 x))
      = le_word (ucast y) (ucast (drop_bit 8 y)) (ucast (drop_bit 16 y)) (ucast (drop_bit 24 y))"
    using a by (simp add: word_bytes_def)
  then show ?thesis by (simp only: le_word_bytes)
qed

lemma concat_word_bytes_inj:
  "concat (map word_bytes xs) = concat (map word_bytes ys) \<Longrightarrow> xs = ys"
proof (induction xs arbitrary: ys)
  case Nil
  then show ?case by (cases ys) (auto simp: word_bytes_def)
next
  case (Cons x xs)
  show ?case
  proof (cases ys)
    case Nil
    with Cons.prems show ?thesis by (simp add: word_bytes_def)
  next
    case (Cons y ys')
    have l: "length (word_bytes x) = length (word_bytes y)" by (simp add: word_bytes_def)
    from Cons.prems Cons
    have "word_bytes x @ concat (map word_bytes xs) = word_bytes y @ concat (map word_bytes ys')"
      by simp
    with l have "word_bytes x = word_bytes y"
      "concat (map word_bytes xs) = concat (map word_bytes ys')"
      by auto
    with Cons.IH Cons show ?thesis by (auto dest: word_bytes_inj)
  qed
qed

lemma memcmp_words_iff: "memcmp_words xs ys \<longleftrightarrow> xs \<noteq> ys"
  unfolding memcmp_words_def using concat_word_bytes_inj by blast

lemma write_flash_block_halves:
  assumes "256 dvd unat addr"
  shows "ch32_write_flash_block T addr data w =
           map_option (block_verify T addr (load_words data 64))
             (block_program T addr (load_words data 64) w)"
  using assms
  by (auto simp: ch32_write_flash_block_def block_program_def block_verify_def word_mod_256
      Let_def split: Option.bind_splits prod.splits)

lemma read_words_spec:
  assumes "length rdata = i" "i \<le> 64"
  shows "length (fst (read_words T addr i rdata w)) = 64
       \<and> take i (fst (read_words T addr i rdata w)) = rdata
       \<and> trace (snd (read_words T addr i rdata w)) =
           trace w @ concat (map (\<lambda>j. EvDelayTicks 0
               # mem_read_events (addr + 4 * of_nat j) (fst (read_words T addr i rdata w) ! j))
             [i..<64])"
  using assms
proof (induction T addr i rdata w rule: read_words.induct)
  case (1 T addr i rdata w)
  show ?case
  proof (cases "i < 64")
    case False
    with "1.prems" show ?thesis by (subst (1 2 3 4) read_words.simps) simp
  next
    case True
    define w1 where "w1 = emit (EvDelayTicks 0) w"
    define r where "r = ch32_read_memory_word T (addr + of_nat i * 4) w1"
    define v where "v = fst (snd r)"
    define w2 where "w2 = snd (snd r)"
    have req: "(fst r, v, w2) = r" by (simp add: v_def w2_def)
    have step: "read_words T addr i rdata w = read_words T addr (i + 1) (rdata @ [v]) w2"
      using True
      by (subst read_words.simps) (simp add: w1_def r_def v_def w2_def case_prod_beta Let_def)
    have ih: "length (fst (read_words T addr (i + 1) (rdata @ [v]) w2)) = 64
       \<and> take (i + 1) (fst (read_words T addr (i + 1) (rdata @ [v]) w2)) = rdata @ [v]
       \<and> trace (snd (read_words T addr (i + 1) (rdata @ [v]) w2)) =
           trace w2 @ concat (map (\<lambda>j. EvDelayTicks 0
               # mem_read_events (addr + 4 * of_nat j)
                   (fst (read_words T addr (i + 1) (rdata @ [v]) w2) ! j))
             [i + 1..<64])"
      using "1.IH" [OF True w1_def req [unfolded r_def] refl] "1.prems" True
      by simp
    let ?res = "fst (read_words T addr (i + 1) (rdata @ [v]) w2)"
    have tk: "take (i + 1) ?res = rdata @ [v]" using ih by simp
    have nth_i: "?res ! i = v"
    proof -
      have "?res ! i = take (i + 1) ?res ! i" by simp
      also have "\<dots> = (rdata @ [v]) ! i" by (simp only: tk)
      also have "\<dots> = v" using "1.prems" by (simp add: nth_append)
      finally show ?thesis .
    qed
    have tki: "take i ?res = rdata"
    proof -
      have "take i ?res = take i (take (i + 1) ?res)" by (simp add: min_def)
      also have "\<dots> = take i (rdata @ [v])" by (simp only: tk)
      also have "\<dots> = rdata" using "1.prems" by simp
      finally show ?thesis .
    qed
    have t2: "trace w2 = trace w @ EvDelayTicks 0 # mem_read_events (addr + 4 * of_nat i) v"
      by (simp add: w2_def v_def r_def w1_def trace_read_memory_word mult.commute)
    have upt: "[i..<64] = i # [i + 1..<64]"
      using True by (simp add: upt_conv_Cons)
    show ?thesis
      using ih tki nth_i t2 by (simp add: step upt)
  qed
qed

lemma block_verify_spec:
  "length (block_read_back T addr w) = 64"
  "fst (block_verify T addr wdata w) = (block_read_back T addr w = wdata)"
  "trace (snd (block_verify T addr wdata w)) =
     trace w
     @ concat (map (\<lambda>i. EvDelayTicks 0
                 # mem_read_events (addr + 4 * of_nat i) (block_read_back T addr w ! i)) [0..<64])
     @ (if block_read_back T addr w = wdata then []
        else mismatch_log addr wdata (block_read_back T addr w))"
  using read_words_spec [of "[]" 0 T addr w]
  by (auto simp: block_read_back_def block_verify_def memcmp_words_iff case_prod_beta)

subsection \<open>Targets that are never busy\<close>

lemma read_memory_word_value:
  "\<exists>h. fst (snd (ch32_read_memory_word T a w)) = fst (snd (rvswd_read T h CH32_REG_DEBUG_DATA0))"
  by (auto simp: ch32_read_memory_word_def ch32_read_cpu_reg_def case_prod_beta Let_def)

lemma never_busy_value:
  assumes "never_busy T"
  shows "fst (snd (ch32_read_memory_word T a w)) AND 1 = 0"
    and "fst (snd (ch32_read_memory_word T a w)) AND 2 = 0"
proof -
  obtain h where h: "fst (snd (ch32_read_memory_word T a w))
                      = fst (snd (rvswd_read T h CH32_REG_DEBUG_DATA0))"
    using read_memory_word_value [of T a w] by blast
  let ?v = "fst (snd (ch32_read_memory_word T a w))"
  have z: "?v AND 3 = 0" using assms h by (simp add: never_busy_def)
  have "?v AND 1 = (?v AND 3) AND 1" by (simp add: and.assoc)
  then show "?v AND 1 = 0" by (simp only: z) simp
  have "?v AND 2 = (?v AND 3) AND 2" by (simp add: and.assoc)
  then show "?v AND 2 = 0" by (simp only: z) simp
qed

lemma wait_flash_idle:
  assumes "never_busy T"
  shows "ch32_wait_flash T w = Some (snd (snd (ch32_read_memory_word T CH32_FLASH_STATR w)))"
  using never_busy_value (1) [OF assms, of CH32_FLASH_STATR w]
  by (simp add: ch32_wait_flash_def case_prod_beta wait_flash_loop.simps
      CH32_FLASH_STATR_BUSY_def)

lemma wait_flash_write_idle:
  assumes "never_busy T"
  shows "ch32_wait_flash_write T w
           = Some (snd (snd (ch32_read_memory_word T CH32_FLASH_STATR w)))"
  using never_busy_value (2) [OF assms, of CH32_FLASH_STATR w]
  by (simp add: ch32_wait_flash_write_def case_prod_beta wait_flash_write_loop.simps
      CH32_FLASH_STATR_WRBUSY_def)

lemma write_words_idle:
  assumes "never_busy T"
  shows "\<exists>w'. write_words T addr wdata i w = Some w'"
  using assms
proof (induction T addr wdata i w rule: write_words.induct)
  case (1 T addr wdata i w)
  show ?case
  proof (cases "i < 64")
    case False
    then show ?thesis by (subst write_words.simps) simp
  next
    case True
    define w1 where "w1 = snd (ch32_write_memory_word T (addr + of_nat i * 4) (wdata ! i) w)"
    define w2 where "w2 = snd (snd (ch32_read_memory_word T CH32_FLASH_STATR w1))"
    have ww: "ch32_wait_flash_write T w1 = Some w2"
      by (simp add: wait_flash_write_idle [OF "1.prems"] w2_def)
    have "\<exists>w'. write_words T addr wdata (i + 1) w2 = Some w'"
      using "1.IH" [OF True w1_def _ "1.prems"] ww by simp
    then show ?thesis
      using True ww by (subst write_words.simps) (simp add: w1_def [symmetric])
  qed
qed

lemma block_program_idle:
  assumes "never_busy T"
  shows "\<exists>w'. block_program T addr wdata w = Some w'"
proof -
  define w3 where "w3 = snd (ch32_write_memory_word T CH32_FLASH_ADDR addr
      (snd (ch32_write_memory_word T CH32_FLASH_CTLR CH32_FLASH_CTLR_FTPG
         (snd (snd (ch32_read_memory_word T CH32_FLASH_STATR w))))))"
  obtain w4 where w4: "write_words T addr wdata 0 w3 = Some w4"
    using write_words_idle [OF assms, of addr wdata 0 w3] by blast
  show ?thesis
    by (simp add: block_program_def w4 [unfolded w3_def] wait_flash_idle [OF assms])
qed

lemma erase_flash_block_idle:
  assumes "never_busy T"
  shows "\<exists>w'. ch32_erase_flash_block T addr w = Some (256 dvd unat addr, w')"
  by (simp add: ch32_erase_flash_block_def word_mod_256 wait_flash_idle [OF assms])

lemma never_busy_stuck: "never_busy (stuck_target v) = (v AND 3 = 0)"
  by (simp add: never_busy_def stuck_target_def)

lemma stuck_read_value [simp]: "fst (snd (ch32_read_memory_word (stuck_target v) a w)) = v"
  by (simp add: ch32_read_memory_word_def ch32_read_cpu_reg_def case_prod_beta Let_def
      stuck_target_def)

lemma stuck_read_words:
  "i \<le> 64 \<Longrightarrow> fst (read_words (stuck_target v) addr i rdata w) = rdata @ replicate (64 - i) v"
proof (induction "stuck_target v" addr i rdata w rule: read_words.induct)
  case (1 addr i rdata w)
  show ?case
  proof (cases "i < 64")
    case False
    with "1.prems" show ?thesis by (subst read_words.simps) simp
  next
    case True
    define w1 where "w1 = emit (EvDelayTicks 0) w"
    define r where "r = ch32_read_memory_word (stuck_target v) (addr + of_nat i * 4) w1"
    have rv: "fst (snd r) = v" by (simp add: r_def)
    have req: "(fst r, v, snd (snd r)) = r" using rv by (cases r) auto
    have ih: "fst (read_words (stuck_target v) addr (i + 1) (rdata @ [v]) (snd (snd r)))
               = (rdata @ [v]) @ replicate (64 - (i + 1)) v"
      using "1.hyps" [OF True w1_def req [unfolded r_def] refl] True by (simp add: r_def)
    have rep: "replicate (64 - i) v = v # replicate (64 - (i + 1)) v"
      using True by (cases "64 - i") auto
    show ?thesis
      using True ih [unfolded r_def] rv [unfolded r_def]
      by (subst read_words.simps)
         (simp add: w1_def [symmetric] case_prod_beta Let_def rep)
  qed
qed

lemma stuck_read_back: "block_read_back (stuck_target v) addr w = replicate 64 v"
  using stuck_read_words [of 0 v addr "[]" w] by (simp add: block_read_back_def)

lemma load_words_const: "load_words (\<lambda>k. c) n = replicate n (le_word c c c c)"
  by (simp add: load_words_def map_replicate_const)

lemma write_flash_block_returns:
  assumes "never_busy T"
  shows "\<exists>r. ch32_write_flash_block T addr data w = Some r"
proof (cases "256 dvd unat addr")
  case True
  obtain w8 where "block_program T addr (load_words data 64) w = Some w8"
    using block_program_idle [OF assms] by blast
  then show ?thesis by (simp add: write_flash_block_halves [OF True])
next
  case False
  then show ?thesis by (auto simp: ch32_write_flash_block_def word_mod_256)
qed

text \<open>
  C5. On an address that is a multiple of 256, writing a block returns exactly when its
  programming sequence returns, and then with the outcome of the verification. The
  verification makes one pass: it reads the 64 words at \<open>addr\<close>, \<open>addr + 4\<close>, ... back
  in this order and returns true exactly when the 64 words read are the 64 words written,
  which is the same as the 256 bytes being equal one by one; after a mismatch it only
  logs, so nothing is retried. On a target that is never busy the function returns.
\<close>

theorem write_flash_block_verifies:
  assumes "256 dvd unat addr"
  shows "ch32_write_flash_block T addr data w =
           map_option (block_verify T addr (load_words data 64))
             (block_program T addr (load_words data 64) w)
       \<and> (never_busy T \<longrightarrow> (\<exists>r. ch32_write_flash_block T addr data w = Some r))
       \<and> length (load_words data 64) = 64
       \<and> length (block_read_back T addr w8) = 64
       \<and> fst (block_verify T addr wdata w8) = (block_read_back T addr w8 = wdata)
       \<and> fst (block_verify T addr wdata w8) =
           (concat (map word_bytes (block_read_back T addr w8)) = concat (map word_bytes wdata))
       \<and> trace (snd (block_verify T addr wdata w8)) =
           trace w8
           @ concat (map (\<lambda>i. EvDelayTicks 0
                 # mem_read_events (addr + 4 * of_nat i) (block_read_back T addr w8 ! i))
               [0..<64])
           @ (if block_read_back T addr w8 = wdata then []
              else mismatch_log addr wdata (block_read_back T addr w8))"
proof (intro conjI)
  show "ch32_write_flash_block T addr data w =
           map_option (block_verify T addr (load_words data 64))
             (block_program T addr (load_words data 64) w)"
    by (rule write_flash_block_halves [OF assms])
  show "never_busy T \<longrightarrow> (\<exists>r. ch32_write_flash_block T addr data w = Some r)"
    using write_flash_block_returns by blast
  show "length (load_words data 64) = 64"
    by (simp add: load_words_def)
  show "length (block_read_back T addr w8) = 64"
    by (rule block_verify_spec (1))
  show "fst (block_verify T addr wdata w8) = (block_read_back T addr w8 = wdata)"
    by (rule block_verify_spec (2))
  show "fst (block_verify T addr wdata w8) =
           (concat (map word_bytes (block_read_back T addr w8)) = concat (map word_bytes wdata))"
    using concat_word_bytes_inj [of "block_read_back T addr w8" wdata]
    by (auto simp: block_verify_spec (2))
  show "trace (snd (block_verify T addr wdata w8)) =
           trace w8
           @ concat (map (\<lambda>i. EvDelayTicks 0
                 # mem_read_events (addr + 4 * of_nat i) (block_read_back T addr w8 ! i))
               [0..<64])
           @ (if block_read_back T addr w8 = wdata then []
              else mismatch_log addr wdata (block_read_back T addr w8))"
    by (rule block_verify_spec (3))
qed

text \<open>
  On a target that reads 0 everywhere, a block of zero bytes verifies and a block of
  bytes 1 does not.
\<close>

theorem write_flash_block_verifies_witness:
  "256 dvd unat (0x08000000 :: u32)
   \<and> map_option fst (ch32_write_flash_block (stuck_target 0) 0x08000000 (\<lambda>k. 0) (start ()))
       = Some True
   \<and> map_option fst (ch32_write_flash_block (stuck_target 0) 0x08000000 (\<lambda>k. 1) (start ()))
       = Some False"
proof -
  have h: "256 dvd unat (0x08000000 :: u32)" by simp
  have nb: "never_busy (stuck_target 0)" by (simp add: never_busy_stuck)
  have neq: "replicate 64 (0 :: u32) \<noteq> replicate 64 (le_word 1 1 1 1)"
    by (simp add: le_word_def replicate_eq_replicate)
  have z: "le_word 0 0 0 0 = 0" by (simp add: le_word_def)
  obtain a where a: "block_program (stuck_target 0) 0x08000000 (load_words (\<lambda>k. 0) 64)
                       (start ()) = Some a"
    using block_program_idle [OF nb] by blast
  obtain b where b: "block_program (stuck_target 0) 0x08000000 (load_words (\<lambda>k. 1) 64)
                       (start ()) = Some b"
    using block_program_idle [OF nb] by blast
  have "map_option fst (ch32_write_flash_block (stuck_target 0) 0x08000000 (\<lambda>k. 0) (start ()))
       = Some True"
    using write_flash_block_verifies [OF h, of "stuck_target 0" "\<lambda>k. 0" "start ()" a
        "load_words (\<lambda>k. 0) 64"] a
    by (simp add: stuck_read_back load_words_const z)
  moreover
  have "map_option fst (ch32_write_flash_block (stuck_target 0) 0x08000000 (\<lambda>k. 1) (start ()))
       = Some False"
    using write_flash_block_verifies [OF h, of "stuck_target 0" "\<lambda>k. 1" "start ()" b
        "load_words (\<lambda>k. 1) 64"] b neq
    by (simp add: stuck_read_back load_words_const)
  ultimately show ?thesis using h by simp
qed

section \<open>Flash programmer: writing a range\<close>

lemma sint_small:
  assumes "unat (x :: u32) < 2 ^ 31" shows "sint x = int (unat x)"
proof -
  have "int (unat x) < 2 ^ 31"
    using assms by (metis of_nat_less_iff of_nat_numeral of_nat_power)
  then have u: "uint x < 2 ^ 31" by simp
  have "sint x = signed_take_bit 31 (uint x)" by (simp add: sint_uint)
  also have "\<dots> = uint x"
    using u by (intro signed_take_bit_int_eq_self) (simp_all add: order_trans [of _ 0])
  finally show ?thesis by simp
qed

lemma unat_of_nat_u32: "m < 2 ^ 32 \<Longrightarrow> unat (of_nat m :: u32) = m"
  by (simp add: unat_of_nat)

lemma chunk_less: "(k < (n + 255) div 256) = (256 * k < (n::nat))"
  by arith

lemma aligned_add:
  assumes "256 dvd unat (addr :: u32)" "256 dvd m"
  shows "256 dvd unat (addr + of_nat m)"
proof -
  have "unat (addr + of_nat m) = (unat addr + m mod 2 ^ 32) mod 2 ^ 32"
    by (simp only: unat_word_ariths unat_of_nat) simp
  moreover have "(256::nat) dvd 2 ^ 32" by simp
  ultimately show ?thesis using assms by (simp only: dvd_mod dvd_add)
qed

lemma flash_chunks_Cons:
  "flash_chunks T addr data data_len (k # ks) w =
     chunk_step T addr data data_len k w (flash_chunks T addr data data_len ks)"
  by (simp add: chunk_step_def)

lemma write_flash_loop_step:
  assumes len: "unat data_len < 2 ^ 31" and k: "256 * k < unat data_len"
  shows "write_flash_loop T addr data data_len (of_nat (256 * k)) w =
           chunk_step T addr data data_len k w
             (write_flash_loop T addr data data_len (of_nat (256 * Suc k)))"
proof -
  define i :: u32 where "i = of_nat (256 * k)"
  have ui: "unat i = 256 * k"
    unfolding i_def using len k by (intro unat_of_nat_u32) simp
  have lt: "i < data_len" using ui k by (simp add: word_less_nat_alt)
  have si: "sint i = int (256 * k)"
    using sint_small [of i] ui len k by simp
  have sl: "sint data_len = int (unat data_len)"
    using sint_small [OF len] .
  have nx: "i + 256 = of_nat (256 * Suc k)"
    unfolding i_def by simp
  have "write_flash_loop T addr data data_len i w =
           chunk_step T addr data data_len k w (write_flash_loop T addr data data_len (i + 256))"
    unfolding chunk_step_def i_def [symmetric]
    using lt
    by (subst write_flash_loop.simps)
       (simp add: si sl ui Let_def split: option.splits Option.bind_splits)
  then show ?thesis
    unfolding nx unfolding i_def .
qed


lemma write_flash_loop_done:
  assumes len: "unat data_len < 2 ^ 31" and k: "k = (unat data_len + 255) div 256"
  shows "write_flash_loop T addr data data_len (of_nat (256 * k)) w = Some (True, w)"
proof -
  define i :: u32 where "i = of_nat (256 * k)"
  have "256 * k < 2 ^ 32" using len k by simp
  then have ui: "unat i = 256 * k"
    unfolding i_def by (rule unat_of_nat_u32)
  have "unat data_len \<le> 256 * k" using k by arith
  then have "\<not> i < data_len" using ui by (simp add: word_less_nat_alt)
  then have "write_flash_loop T addr data data_len i w = Some (True, w)"
    by (subst write_flash_loop.simps) simp
  then show ?thesis unfolding i_def .
qed

lemma write_flash_loop_chunks:
  assumes len: "unat data_len < 2 ^ 31"
  shows "k \<le> (unat data_len + 255) div 256 \<Longrightarrow>
         write_flash_loop T addr data data_len (of_nat (256 * k)) w =
           flash_chunks T addr data data_len [k..<(unat data_len + 255) div 256] w"
proof (induction "(unat data_len + 255) div 256 - k" arbitrary: k w)
  case 0
  then have k: "k = (unat data_len + 255) div 256" by simp
  show ?case
    using write_flash_loop_done [OF len k, of T addr data w] k by simp
next
  case (Suc m)
  let ?n = "(unat data_len + 255) div 256"
  have kn: "k < ?n" using Suc.hyps(2) by simp
  then have kl: "256 * k < unat data_len" by (simp only: chunk_less)
  have ih: "write_flash_loop T addr data data_len (of_nat (256 * Suc k))
              = flash_chunks T addr data data_len [Suc k..<?n]"
  proof
    fix w'
    show "write_flash_loop T addr data data_len (of_nat (256 * Suc k)) w'
            = flash_chunks T addr data data_len [Suc k..<?n] w'"
      using Suc.hyps(1) [of "Suc k" w'] Suc.hyps(2) kn by simp
  qed
  have upt: "[k..<?n] = k # [Suc k..<?n]"
    using kn by (simp add: upt_conv_Cons)
  show ?case
    by (simp only: write_flash_loop_step [OF len kl] ih upt flash_chunks_Cons)
qed

lemma write_flash_chunks:
  assumes "64 dvd unat addr" "unat data_len < 2 ^ 31"
  shows "ch32_write_flash T addr data data_len w =
           flash_chunks T addr data data_len [0..<(unat data_len + 255) div 256] w"
  using assms(1) write_flash_loop_chunks [OF assms(2), of 0 T addr data w]
  by (simp add: ch32_write_flash_def word_mod_64)

lemma flash_chunks_cycles:
  assumes "256 dvd unat addr"
  shows "flash_chunks T addr data data_len ks w = block_cycles T addr data data_len ks w"
proof (induction ks arbitrary: w)
  case Nil
  show ?case by simp
next
  case (Cons k ks)
  have al: "256 dvd unat (addr + of_nat (256 * k))"
    by (rule aligned_add [OF assms]) simp
  have h: "\<And>w3. ch32_write_flash_block T (addr + of_nat (256 * k)) (\<lambda>j. data (256 * k + j)) w3
             = map_option (block_verify T (addr + of_nat (256 * k)) (chunk_words data k))
                 (block_program T (addr + of_nat (256 * k)) (chunk_words data k) w3)"
    by (simp only: write_flash_block_halves [OF al] chunk_words_def)
  show ?case
    unfolding flash_chunks.simps block_cycles.simps Let_def h Cons.IH
    by (auto split: option.splits prod.splits)
qed

lemma chunk_words_nth:
  "j < 64 \<Longrightarrow> chunk_words data k ! j =
     le_word (data (256 * k + 4 * j)) (data (256 * k + (4 * j + 1)))
             (data (256 * k + (4 * j + 2))) (data (256 * k + (4 * j + 3)))"
  by (simp add: chunk_words_def load_words_def)


lemma callbacks_Nil [simp]: "callbacks [] = 0"
  by (simp add: callbacks_def)

lemma callbacks_Cons [simp]:
  "callbacks (e # es) = (if is_status e then 1 else 0) + callbacks es"
  by (simp add: callbacks_def)

lemma callbacks_append [simp]: "callbacks (xs @ ys) = callbacks xs + callbacks ys"
  by (simp add: callbacks_def)

lemma callbacks_mem_events [simp]:
  "callbacks (mem_write_events a v) = 0" "callbacks (mem_read_events a v) = 0"
  by (simp_all add: mem_write_events_def mem_read_events_def progbuf_events_def)

lemma cb_write_memory_word [simp]:
  "callbacks (trace (snd (ch32_write_memory_word T a v w))) = callbacks (trace w)"
  by (simp add: trace_write_memory_word)

lemma cb_read_memory_word [simp]:
  "callbacks (trace (snd (snd (ch32_read_memory_word T a w)))) = callbacks (trace w)"
  by (simp add: trace_read_memory_word)

lemma cb_wait_flash_loop:
  fixes T :: "'h rvswd"
  assumes "wait_flash_loop T v w = Some w'"
  shows "callbacks (trace w') = callbacks (trace w)"
proof (rule wait_flash_loop.raw_induct
    [where P = "\<lambda>T v w w'. callbacks (trace w') = callbacks (trace w)", OF _ assms])
  fix loop :: "'h rvswd \<Rightarrow> u32 \<Rightarrow> 'h world \<Rightarrow> 'h world option"
    and T :: "'h rvswd" and v w Ta
  assume IH: "\<And>v w b y. loop v w b = Some y \<Longrightarrow> callbacks (trace y) = callbacks (trace b)"
  assume eq: "(if v AND CH32_FLASH_STATR_BUSY \<noteq> 0
          then let w1 = emit (EvDelayTicks 1) w;
                   (r, v', w2) = ch32_read_memory_word T CH32_FLASH_STATR w1
               in loop T v' w2
          else Some w) = Some Ta"
  show "callbacks (trace Ta) = callbacks (trace w)"
  proof (cases "v AND CH32_FLASH_STATR_BUSY \<noteq> 0")
    case True
    with eq have "loop T (fst (snd (ch32_read_memory_word T CH32_FLASH_STATR
                      (emit (EvDelayTicks 1) w))))
                    (snd (snd (ch32_read_memory_word T CH32_FLASH_STATR
                      (emit (EvDelayTicks 1) w)))) = Some Ta"
      by (simp add: case_prod_beta Let_def)
    from IH [OF this] show ?thesis by simp
  next
    case False
    with eq show ?thesis by simp
  qed
qed

lemma cb_wait_flash_write_loop:
  fixes T :: "'h rvswd"
  assumes "wait_flash_write_loop T v w = Some w'"
  shows "callbacks (trace w') = callbacks (trace w)"
proof (rule wait_flash_write_loop.raw_induct
    [where P = "\<lambda>T v w w'. callbacks (trace w') = callbacks (trace w)", OF _ assms])
  fix loop :: "'h rvswd \<Rightarrow> u32 \<Rightarrow> 'h world \<Rightarrow> 'h world option"
    and T :: "'h rvswd" and v w Ta
  assume IH: "\<And>v w b y. loop v w b = Some y \<Longrightarrow> callbacks (trace y) = callbacks (trace b)"
  assume eq: "(if v AND CH32_FLASH_STATR_WRBUSY \<noteq> 0
          then let (r, v', w1) = ch32_read_memory_word T CH32_FLASH_STATR w
               in loop T v' w1
          else Some w) = Some Ta"
  show "callbacks (trace Ta) = callbacks (trace w)"
  proof (cases "v AND CH32_FLASH_STATR_WRBUSY \<noteq> 0")
    case True
    with eq have "loop T (fst (snd (ch32_read_memory_word T CH32_FLASH_STATR w)))
                    (snd (snd (ch32_read_memory_word T CH32_FLASH_STATR w))) = Some Ta"
      by (simp add: case_prod_beta Let_def)
    from IH [OF this] show ?thesis by simp
  next
    case False
    with eq show ?thesis by simp
  qed
qed

lemma cb_wait_flash:
  "ch32_wait_flash T w = Some w' \<Longrightarrow> callbacks (trace w') = callbacks (trace w)"
  by (auto simp: ch32_wait_flash_def case_prod_beta dest: cb_wait_flash_loop)

lemma cb_wait_flash_write:
  "ch32_wait_flash_write T w = Some w' \<Longrightarrow> callbacks (trace w') = callbacks (trace w)"
  by (auto simp: ch32_wait_flash_write_def case_prod_beta dest: cb_wait_flash_write_loop)

lemma cb_write_words:
  "write_words T addr wdata i w = Some w' \<Longrightarrow> callbacks (trace w') = callbacks (trace w)"
proof (induction T addr wdata i w rule: write_words.induct)
  case (1 T addr wdata i w)
  show ?case
  proof (cases "i < 64")
    case False
    with "1.prems" show ?thesis by (subst (asm) write_words.simps) simp
  next
    case True
    define w1 where "w1 = snd (ch32_write_memory_word T (addr + of_nat i * 4) (wdata ! i) w)"
    from "1.prems" True obtain w2
      where ww: "ch32_wait_flash_write T w1 = Some w2"
        and rec: "write_words T addr wdata (i + 1) w2 = Some w'"
      by (subst (asm) write_words.simps)
         (auto simp: w1_def Let_def split: Option.bind_splits)
    have "callbacks (trace w') = callbacks (trace w2)"
      using "1.IH" [OF True w1_def ww rec] .
    also have "\<dots> = callbacks (trace w1)" using cb_wait_flash_write [OF ww] .
    also have "\<dots> = callbacks (trace w)" by (simp add: w1_def)
    finally show ?thesis .
  qed
qed

lemma cb_erase_flash_block:
  "ch32_erase_flash_block T a w = Some (r, w') \<Longrightarrow> callbacks (trace w') = callbacks (trace w)"
  by (auto simp: ch32_erase_flash_block_def Let_def
      split: if_splits Option.bind_splits dest!: cb_wait_flash)

lemma cb_block_program:
  "block_program T a wdata w = Some w' \<Longrightarrow> callbacks (trace w') = callbacks (trace w)"
  by (auto simp: block_program_def Let_def
      split: Option.bind_splits dest!: cb_wait_flash cb_write_words)

lemma callbacks_dump [simp]: "callbacks (dump_words ws) = 0"
  unfolding dump_words_def by (induction "[0..<64::nat]") (simp_all add: callbacks_def filter_empty_conv)


lemma callbacks_concat_map:
  "(\<And>x. callbacks (f x) = 0) \<Longrightarrow> callbacks (concat (map f xs)) = 0"
  by (induction xs) simp_all

lemma cb_block_verify [simp]:
  "callbacks (trace (snd (block_verify T a wdata w))) = callbacks (trace w)"
  by (simp add: block_verify_spec (3) callbacks_concat_map mismatch_log_def)

lemma cb_block_cycles:
  "block_cycles T addr data data_len ks w = Some (ok, w') \<Longrightarrow>
     callbacks (trace w') \<le> callbacks (trace w) + length ks
     \<and> (ok \<longrightarrow> callbacks (trace w') = callbacks (trace w) + length ks)"
proof (induction ks arbitrary: w)
  case Nil
  then show ?case by simp
next
  case (Cons k ks)
  let ?a = "addr + of_nat (256 * k)"
  let ?w2 = "emit (EvStatus ?a (int (256 * k)) (int (unat data_len))) (emit (EvDelayTicks 0) w)"
  have c2: "callbacks (trace ?w2) = callbacks (trace w) + 1" by simp
  from Cons.prems obtain erased w3 where e: "ch32_erase_flash_block T ?a ?w2 = Some (erased, w3)"
    by (auto simp: Let_def split: option.splits)
  have c3: "callbacks (trace w3) = callbacks (trace w) + 1"
    using cb_erase_flash_block [OF e] c2 by simp
  show ?case
  proof (cases erased)
    case False
    with Cons.prems e c3 show ?thesis by (auto simp: Let_def)
  next
    case True
    with Cons.prems e obtain w8 where p: "block_program T ?a (chunk_words data k) w3 = Some w8"
      by (auto simp: Let_def split: option.splits)
    have c8: "callbacks (trace w8) = callbacks (trace w) + 1"
      using cb_block_program [OF p] c3 by simp
    let ?w4 = "snd (block_verify T ?a (chunk_words data k) w8)"
    have c4: "callbacks (trace ?w4) = callbacks (trace w) + 1" using c8 by simp
    show ?thesis
    proof (cases "fst (block_verify T ?a (chunk_words data k) w8)")
      case False
      with Cons.prems e True p c4 show ?thesis by (auto simp: Let_def)
    next
      case v: True
      with Cons.prems e True p
      have "block_cycles T addr data data_len ks ?w4 = Some (ok, w')"
        by (simp add: Let_def)
      from Cons.IH [OF this] c4 show ?thesis by simp
    qed
  qed
qed

lemma stuck_cycles:
  assumes "256 dvd unat addr"
  shows "\<exists>w'. block_cycles (stuck_target 0) addr (\<lambda>k. 0) data_len ks w = Some (True, w')"
proof (induction ks arbitrary: w)
  case Nil
  show ?case by simp
next
  case (Cons k ks)
  have nb: "never_busy (stuck_target 0)" by (simp add: never_busy_stuck)
  let ?a = "addr + of_nat (256 * k)"
  have al: "256 dvd unat ?a" by (rule aligned_add [OF assms]) simp
  let ?w2 = "emit (EvStatus ?a (int (256 * k)) (int (unat data_len))) (emit (EvDelayTicks 0) w)"
  obtain w3 where e: "ch32_erase_flash_block (stuck_target 0) ?a ?w2 = Some (True, w3)"
    using erase_flash_block_idle [OF nb, of ?a ?w2] al by auto
  obtain w8 where p: "block_program (stuck_target 0) ?a (chunk_words (\<lambda>k. 0) k) w3 = Some w8"
    using block_program_idle [OF nb] by blast
  have v: "fst (block_verify (stuck_target 0) ?a (chunk_words (\<lambda>k. 0) k) w8)"
    by (simp add: block_verify_spec (2) stuck_read_back chunk_words_def load_words_const
        le_word_def)
  obtain w' where "block_cycles (stuck_target 0) addr (\<lambda>k. 0) data_len ks
      (snd (block_verify (stuck_target 0) ?a (chunk_words (\<lambda>k. 0) k) w8)) = Some (True, w')"
    using Cons.IH by blast
  then show ?case
    using e p v by (simp add: Let_def)
qed

lemma flash_chunks_returns:
  assumes "never_busy T"
  shows "\<exists>r. flash_chunks T addr data data_len ks w = Some r"
proof (induction ks arbitrary: w)
  case Nil
  have "flash_chunks T addr data data_len [] w = Some (True, w)" by simp
  then show ?case by blast
next
  case (Cons k ks)
  let ?a = "addr + of_nat (256 * k)"
  let ?w2 = "emit (EvStatus ?a (int (256 * k)) (int (unat data_len))) (emit (EvDelayTicks 0) w)"
  obtain w3 where e: "ch32_erase_flash_block T ?a ?w2 = Some (256 dvd unat ?a, w3)"
    using erase_flash_block_idle [OF assms] by blast
  obtain written w4
    where p: "ch32_write_flash_block T ?a (\<lambda>j. data (256 * k + j)) w3 = Some (written, w4)"
    using write_flash_block_returns [OF assms, of ?a "\<lambda>j. data (256 * k + j)" w3] by auto
  obtain r where r: "flash_chunks T addr data data_len ks w4 = Some r"
    using Cons.IH by blast
  have "flash_chunks T addr data data_len (k # ks) w =
          Some (False, emit (EvLogE ''Error: Failed to erase FLASH at %08x'' [?a]) w3)
      \<or> flash_chunks T addr data data_len (k # ks) w =
          Some (False, emit (EvLogE ''Error: Failed to write FLASH at %08x'' [?a]) w4)
      \<or> flash_chunks T addr data data_len (k # ks) w = Some r"
    using e p r by (cases "256 dvd unat ?a"; cases written; simp add: Let_def)
  then show ?case by blast
qed

text \<open>
  C3, as stated, fails: the callback takes the length as \<open>int\<close>, so for a length of
  \<open>2^31\<close> bytes or more the total it receives is not the length. On the base address
  \<open>0x08000040\<close> with the length \<open>0x80000100\<close> the one callback that is made gets
  the total \<open>-2147483392\<close>.
\<close>

theorem write_flash_total_counterexample:
  "64 dvd unat (0x08000040 :: u32)
   \<and> ch32_write_flash (stuck_target 0) 0x08000040 (\<lambda>k. 0) 0x80000100 (start ()) =
       Some (False, \<lparr>hw = (), trace =
         [EvDelayTicks 0, EvStatus 0x08000040 0 (- 2147483392),
          EvLogE ''Error: Failed to erase FLASH at %08x'' [0x08000040]]\<rparr>)
   \<and> int (unat (0x80000100 :: u32)) \<noteq> - 2147483392"
  by (simp add: ch32_write_flash_def write_flash_loop.simps ch32_erase_flash_block_def
      start_def emit_def)

text \<open>
  C3, amended. When the base address is not a multiple of 64, writing a range returns
  false in the unchanged world: no transport access, no callback. Otherwise, for a length below
  \<open>2^31\<close> (the callback takes the offset and the length as \<open>int\<close>), it runs the
  chunks at the offsets 0, 256, 512, ... below the length in this order; for each chunk it
  calls the status callback once with the offset and the length, then erases the block at
  \<open>addr + offset\<close>, then programs it from \<open>data + offset\<close>, and the first erase or
  program that fails ends the run with the result false. The waits on the flash status
  have no bound in the source; on a target that is never busy the run returns.
\<close>

theorem write_flash_chunked:
  "(\<not> 64 dvd unat addr \<longrightarrow> ch32_write_flash T addr data data_len w = Some (False, w))
   \<and> (64 dvd unat addr \<and> unat data_len < 2 ^ 31 \<longrightarrow>
        ch32_write_flash T addr data data_len w =
          flash_chunks T addr data data_len [0..<(unat data_len + 255) div 256] w)
   \<and> (64 dvd unat addr \<and> unat data_len < 2 ^ 31 \<and> never_busy T \<longrightarrow>
        (\<exists>r. ch32_write_flash T addr data data_len w = Some r))"
proof (intro conjI impI)
  assume a: "64 dvd unat addr \<and> unat data_len < 2 ^ 31 \<and> never_busy T"
  then have nb: "never_busy T" by simp
  obtain r where "flash_chunks T addr data data_len [0..<(unat data_len + 255) div 256] w
                    = Some r"
    using flash_chunks_returns [OF nb] by blast
  then show "\<exists>r. ch32_write_flash T addr data data_len w = Some r"
    using a write_flash_chunks [of addr data_len T data w] by simp
next
  assume "\<not> 64 dvd unat addr"
  then show "ch32_write_flash T addr data data_len w = Some (False, w)"
    by (simp add: ch32_write_flash_def word_mod_64)
next
  assume a: "64 dvd unat addr \<and> unat data_len < 2 ^ 31"
  then show "ch32_write_flash T addr data data_len w =
          flash_chunks T addr data data_len [0..<(unat data_len + 255) div 256] w"
    using write_flash_chunks [of addr data_len T data w] by simp
qed

theorem write_flash_chunked_witness:
  "\<not> 64 dvd unat (0x08000020 :: u32)
   \<and> ch32_write_flash (stuck_target 0) 0x08000020 (\<lambda>k. 0) 512 (start ())
       = Some (False, start ())
   \<and> 64 dvd unat (0x08000000 :: u32) \<and> unat (512 :: u32) < 2 ^ 31
   \<and> ch32_write_flash (stuck_target 0) 0x08000000 (\<lambda>k. 0) 512 (start ())
       = flash_chunks (stuck_target 0) 0x08000000 (\<lambda>k. 0) 512 [0, 1] (start ())
   \<and> never_busy (stuck_target 0)
   \<and> ch32_write_flash (stuck_target 0) 0x08000000 (\<lambda>k. 0) 512 (start ()) \<noteq> None"
proof -
  have u: "[0..<2] = [0, 1 :: nat]" by (simp add: upt_rec)
  have nb: "never_busy (stuck_target 0)" by (simp add: never_busy_stuck)
  note t1 = write_flash_chunked [of "0x08000020" "stuck_target 0" "\<lambda>k. 0" 512 "start ()"]
  note t2 = write_flash_chunked [of "0x08000000" "stuck_target 0" "\<lambda>k. 0" 512 "start ()"]
  have a: "ch32_write_flash (stuck_target 0) 0x08000020 (\<lambda>k. 0) 512 (start ())
             = Some (False, start ())"
    using t1 by simp
  have b: "ch32_write_flash (stuck_target 0) 0x08000000 (\<lambda>k. 0) 512 (start ())
       = flash_chunks (stuck_target 0) 0x08000000 (\<lambda>k. 0) 512 [0, 1] (start ())"
    using t2 by (simp add: u del: flash_chunks.simps)
  have h: "64 dvd unat (0x08000000 :: u32) \<and> unat (512 :: u32) < 2 ^ 31
           \<and> never_busy (stuck_target 0)"
    using nb by simp
  from t2 h
  have "\<exists>r. ch32_write_flash (stuck_target 0) 0x08000000 (\<lambda>k. 0) 512 (start ()) = Some r"
    by blast
  then have c: "ch32_write_flash (stuck_target 0) 0x08000000 (\<lambda>k. 0) 512 (start ()) \<noteq> None"
    by auto
  show ?thesis
    using a b c nb by (simp del: flash_chunks.simps)
qed

text \<open>
  C10, as stated, fails: on a base address that is a multiple of 64 but not of 256 a
  range of 256 bytes gets no erase-and-program cycle at all. The callback is made, the
  erase refuses the address, and the range fails without any transport access.
\<close>

theorem write_flash_cycles_counterexample:
  "64 dvd unat (0x08000040 :: u32)
   \<and> ch32_write_flash (stuck_target 0) 0x08000040 (\<lambda>k. 0) 256 (start ()) =
       Some (False, \<lparr>hw = (), trace =
         [EvDelayTicks 0, EvStatus 0x08000040 0 256,
          EvLogE ''Error: Failed to erase FLASH at %08x'' [0x08000040]]\<rparr>)"
  by (simp add: ch32_write_flash_def write_flash_loop.simps ch32_erase_flash_block_def
      start_def emit_def)

text \<open>
  C10, amended. On a base address that is a multiple of 256 and for a length below
  \<open>2^31\<close>, writing a range runs the block cycles 0, 1, ... up to
  \<open>ceil(data_len / 256) - 1\<close> in this order and stops at the first that fails: there
  are never more callbacks than \<open>ceil(data_len / 256)\<close>, and exactly that many when the
  result is true; on a target that is never busy the run returns. Cycle \<open>k\<close> programs
  64 words, the 256 bytes at \<open>data + 256 * k\<close>, whatever the length is. For the
  length 0 and a multiple of 64 the result is true in the unchanged world. On a multiple
  of 64 that is not a multiple of 256, with a length other than 0, there is one callback,
  no transport access, and the result is false.
\<close>

theorem write_flash_block_cycles:
  "(64 dvd unat addr \<and> data_len = 0 \<longrightarrow>
      ch32_write_flash T addr data data_len w = Some (True, w))
   \<and> (256 dvd unat addr \<and> unat data_len < 2 ^ 31 \<longrightarrow>
      ch32_write_flash T addr data data_len w =
        block_cycles T addr data data_len [0..<(unat data_len + 255) div 256] w
      \<and> (\<forall>ok w'. ch32_write_flash T addr data data_len w = Some (ok, w') \<longrightarrow>
            callbacks (trace w') \<le> callbacks (trace w) + (unat data_len + 255) div 256
            \<and> (ok \<longrightarrow> callbacks (trace w')
                       = callbacks (trace w) + (unat data_len + 255) div 256)))
   \<and> (256 dvd unat addr \<and> unat data_len < 2 ^ 31 \<and> never_busy T \<longrightarrow>
        (\<exists>r. ch32_write_flash T addr data data_len w = Some r))
   \<and> length (chunk_words data k) = 64
   \<and> (j < 64 \<longrightarrow> chunk_words data k ! j =
        le_word (data (256 * k + 4 * j)) (data (256 * k + (4 * j + 1)))
                (data (256 * k + (4 * j + 2))) (data (256 * k + (4 * j + 3))))
   \<and> (64 dvd unat addr \<and> \<not> 256 dvd unat addr \<and> data_len \<noteq> 0 \<longrightarrow>
      ch32_write_flash T addr data data_len w =
        Some (False, w\<lparr>trace := trace w
          @ [EvDelayTicks 0, EvStatus addr 0 (sint data_len),
             EvLogE ''Error: Failed to erase FLASH at %08x'' [addr]]\<rparr>))"
proof (intro conjI impI allI)
  assume "64 dvd unat addr \<and> data_len = 0"
  then show "ch32_write_flash T addr data data_len w = Some (True, w)"
    by (simp add: ch32_write_flash_def word_mod_64 write_flash_loop.simps)
next
  assume a: "256 dvd unat addr \<and> unat data_len < 2 ^ 31"
  then have a256: "256 dvd unat addr" and len: "unat data_len < 2 ^ 31" by simp_all
  have a64: "64 dvd unat addr"
    using a256 by (rule dvd_trans [rotated]) simp
  show eq: "ch32_write_flash T addr data data_len w =
        block_cycles T addr data data_len [0..<(unat data_len + 255) div 256] w"
    by (simp only: write_flash_chunks [OF a64 len] flash_chunks_cycles [OF a256])
  fix ok w'
  assume r: "ch32_write_flash T addr data data_len w = Some (ok, w')"
  have c: "callbacks (trace w') \<le> callbacks (trace w) + (unat data_len + 255) div 256
       \<and> (ok \<longrightarrow> callbacks (trace w') = callbacks (trace w) + (unat data_len + 255) div 256)"
    using cb_block_cycles [OF r [unfolded eq]] by simp
  show "callbacks (trace w') \<le> callbacks (trace w) + (unat data_len + 255) div 256"
    using c by simp
  assume ok
  then show "callbacks (trace w') = callbacks (trace w) + (unat data_len + 255) div 256"
    using c by simp
next
  assume a: "256 dvd unat addr \<and> unat data_len < 2 ^ 31 \<and> never_busy T"
  then have a256: "256 dvd unat addr" and len: "unat data_len < 2 ^ 31" and nb: "never_busy T"
    by simp_all
  have a64: "64 dvd unat addr"
    using a256 by (rule dvd_trans [rotated]) simp
  obtain r where "flash_chunks T addr data data_len [0..<(unat data_len + 255) div 256] w
                    = Some r"
    using flash_chunks_returns [OF nb] by blast
  then have "ch32_write_flash T addr data data_len w = Some r"
    by (simp only: write_flash_chunks [OF a64 len])
  then show "\<exists>r. ch32_write_flash T addr data data_len w = Some r"
    by blast
next
  show "length (chunk_words data k) = 64"
    by (simp add: chunk_words_def load_words_def)
next
  assume "j < 64"
  then show "chunk_words data k ! j =
        le_word (data (256 * k + 4 * j)) (data (256 * k + (4 * j + 1)))
                (data (256 * k + (4 * j + 2))) (data (256 * k + (4 * j + 3)))"
    by (rule chunk_words_nth)
next
  assume a: "64 dvd unat addr \<and> \<not> 256 dvd unat addr \<and> data_len \<noteq> 0"
  then have pos: "0 < data_len" by (simp add: word_greater_zero_iff)
  show "ch32_write_flash T addr data data_len w =
        Some (False, w\<lparr>trace := trace w
          @ [EvDelayTicks 0, EvStatus addr 0 (sint data_len),
             EvLogE ''Error: Failed to erase FLASH at %08x'' [addr]]\<rparr>)"
    using a pos
    by (simp add: ch32_write_flash_def word_mod_64 write_flash_loop.simps
        ch32_erase_flash_block_def word_mod_256 emit_def)
qed

theorem write_flash_block_cycles_witness:
  "64 dvd unat (0x08000000 :: u32)
   \<and> ch32_write_flash (stuck_target 0) 0x08000000 (\<lambda>k. 0) 0 (start ()) = Some (True, start ())
   \<and> 256 dvd unat (0x08000000 :: u32) \<and> unat (512 :: u32) < 2 ^ 31
   \<and> map_option fst (ch32_write_flash (stuck_target 0) 0x08000000 (\<lambda>k. 0) 512 (start ()))
       = Some True
   \<and> map_option (\<lambda>r. callbacks (trace (snd r)))
        (ch32_write_flash (stuck_target 0) 0x08000000 (\<lambda>k. 0) 512 (start ())) = Some 2
   \<and> (3 :: nat) < 64
   \<and> chunk_words (\<lambda>i. of_nat i) 0 ! 3 = le_word 12 13 14 15
   \<and> 64 dvd unat (0x08000040 :: u32) \<and> \<not> 256 dvd unat (0x08000040 :: u32)
   \<and> (256 :: u32) \<noteq> 0
   \<and> map_option fst (ch32_write_flash (stuck_target 0) 0x08000040 (\<lambda>k. 0) 256 (start ()))
       = Some False"
proof -
  have h: "256 dvd unat (0x08000000 :: u32)" by simp
  have n: "(unat (512 :: u32) + 255) div 256 = 2" by simp
  note t = write_flash_block_cycles
    [where addr = "0x08000000" and data_len = 512 and T = "stuck_target 0"
       and data = "\<lambda>k. 0" and w = "start ()"]
  have eq: "ch32_write_flash (stuck_target 0) 0x08000000 (\<lambda>k. 0) 512 (start ())
          = block_cycles (stuck_target 0) 0x08000000 (\<lambda>k. 0) 512 [0..<2] (start ())"
    using t by (simp add: n)
  obtain w' where w': "block_cycles (stuck_target 0) 0x08000000 (\<lambda>k. 0) 512 [0..<2] (start ())
                    = Some (True, w')"
    using stuck_cycles [OF h] by blast
  have r: "ch32_write_flash (stuck_target 0) 0x08000000 (\<lambda>k. 0) 512 (start ()) = Some (True, w')"
    by (simp only: eq w')
  have c: "callbacks (trace w') = 2"
    using t r by (simp add: n start_def)
  have z: "ch32_write_flash (stuck_target 0) 0x08000000 (\<lambda>k. 0) 0 (start ())
            = Some (True, start ())"
    using write_flash_block_cycles
      [where addr = "0x08000000" and data_len = 0 and T = "stuck_target 0"
         and data = "\<lambda>k. 0" and w = "start ()"]
    by simp
  have m: "map_option fst (ch32_write_flash (stuck_target 0) 0x08000040 (\<lambda>k. 0) 256 (start ()))
         = Some False"
    using write_flash_block_cycles
      [where addr = "0x08000040" and data_len = 256 and T = "stuck_target 0"
         and data = "\<lambda>k. 0" and w = "start ()"]
    by simp
  have cw: "chunk_words (\<lambda>i. of_nat i) 0 ! 3 = le_word 12 13 14 15"
    using write_flash_block_cycles
      [where addr = "0x08000000" and data_len = 512 and T = "stuck_target 0"
         and data = "\<lambda>i. of_nat i" and w = "start ()" and k = 0 and j = 3]
    by simp
  show ?thesis
    using z r c m cw by simp
qed

section \<open>Programming orchestrator\<close>

text \<open>
  When the status register never shows the halted pattern, halt returns the value 0,
  the \<open>false\<close> of the source, whatever the values of the two enumerators are.
\<close>

lemma halt_timeout_result:
  assumes "status_never T 8"
  shows "fst (ch32_halt_microprocessor T w) = 0"
  using halt_poll_never [OF assms, of 5]
  by (simp add: ch32_halt_microprocessor_def case_prod_beta Let_def)

text \<open>
  Where the result of a step differs from \<open>RVSWD_OK\<close>, or is false, the run ends with
  the log line of that step.
\<close>

lemma program_stops_at_init:
  assumes "fst (do_init T w) \<noteq> RVSWD_OK T"
  shows "ch32_program T firmware firmware_len w =
           Some (emit (EvLogE ''Init error %u!'' [word_of_int (fst (do_init T w))])
                   (snd (do_init T w)))"
  using assms by (simp add: ch32_program_def case_prod_beta)

lemma program_stops_at_reset:
  assumes "fst (do_init T w) = RVSWD_OK T"
    and "fst (do_reset T (snd (do_init T w))) \<noteq> RVSWD_OK T"
  shows "ch32_program T firmware firmware_len w =
           Some (emit (EvLogE ''Reset error %u!''
                         [word_of_int (fst (do_reset T (snd (do_init T w))))])
                   (snd (do_reset T (snd (do_init T w)))))"
  using assms by (simp add: ch32_program_def case_prod_beta)

lemma program_stops_at_halt:
  assumes "fst (do_init T w) = RVSWD_OK T"
    and "fst (do_reset T (snd (do_init T w))) = RVSWD_OK T"
    and "fst (ch32_halt_microprocessor T (snd (do_reset T (snd (do_init T w))))) \<noteq> RVSWD_OK T"
  shows "ch32_program T firmware firmware_len w =
           Some (emit (EvLogE ''Failed to halt'' [])
                   (snd (ch32_halt_microprocessor T (snd (do_reset T (snd (do_init T w)))))))"
  using assms by (simp add: ch32_program_def case_prod_beta)

text \<open>
  C8. The claim: the steps run in the order init, reset, halt, unlock, write, reset-and-run,
  and a step that fails keeps every later step from running. The source breaks it at the
  halt step: on its timeout halt returns \<open>false\<close>, which is \<open>RVSWD_OK\<close> when the
  enumeration lists OK first. On such a target with a status register that always reads 0
  (never halted), and an empty image, the run logs the halt timeout and then unlocks the
  flash with all six key writes and goes on to reset-and-run.
\<close>

theorem program_runs_on_after_halt_timeout:
  "status_never (stuck_target 0) 8
   \<and> fst (ch32_halt_microprocessor (stuck_target 0) (start ())) = RVSWD_OK (stuck_target 0)
   \<and> ch32_program (stuck_target 0) (\<lambda>k. 0) 0 (start ()) =
       Some \<lparr>hw = (), trace =
         [EvInit, EvReset, EvWrite 0x10 0x80000001, EvWrite 0x10 0x80000001]
         @ timeout_polls
         @ [EvLogE ''Failed to halt microprocessor, DMSTATUS=%x'' [0]]
         @ mem_read_events 0x40022010 0 @ [EvPrintf ''CTLR before unlock: %08x'' [0]]
         @ mem_write_events 0x40022004 0x45670123 @ mem_write_events 0x40022004 0xCDEF89AB
         @ mem_write_events 0x40022008 0x45670123 @ mem_write_events 0x40022008 0xCDEF89AB
         @ mem_write_events 0x40022024 0x45670123 @ mem_write_events 0x40022024 0xCDEF89AB
         @ mem_read_events 0x40022010 0 @ [EvPrintf ''CTLR after unlock: %08x'' [0]]
         @ [EvPrintf ''Unlock: yes'' []]
         @ [EvWrite 0x10 0x80000001, EvWrite 0x10 0x80000001, EvWrite 0x10 0x00000001,
            EvWrite 0x10 0x00000003]
         @ timeout_polls
         @ [EvLogE ''Failed to reset microprocessor'' [],
            EvLogE ''Failed to reset and run'' []]\<rparr>"
proof (intro conjI)
  show "status_never (stuck_target 0) 8"
    by (simp add: stuck_never)
  show "fst (ch32_halt_microprocessor (stuck_target 0) (start ())) = RVSWD_OK (stuck_target 0)"
    by (simp add: ch32_halt_microprocessor_def halt_poll.simps stuck_target_def start_def
        do_write_def do_read_def emit_def)
  show "ch32_program (stuck_target 0) (\<lambda>k. 0) 0 (start ()) =
       Some \<lparr>hw = (), trace =
         [EvInit, EvReset, EvWrite 0x10 0x80000001, EvWrite 0x10 0x80000001]
         @ timeout_polls
         @ [EvLogE ''Failed to halt microprocessor, DMSTATUS=%x'' [0]]
         @ mem_read_events 0x40022010 0 @ [EvPrintf ''CTLR before unlock: %08x'' [0]]
         @ mem_write_events 0x40022004 0x45670123 @ mem_write_events 0x40022004 0xCDEF89AB
         @ mem_write_events 0x40022008 0x45670123 @ mem_write_events 0x40022008 0xCDEF89AB
         @ mem_write_events 0x40022024 0x45670123 @ mem_write_events 0x40022024 0xCDEF89AB
         @ mem_read_events 0x40022010 0 @ [EvPrintf ''CTLR after unlock: %08x'' [0]]
         @ [EvPrintf ''Unlock: yes'' []]
         @ [EvWrite 0x10 0x80000001, EvWrite 0x10 0x80000001, EvWrite 0x10 0x00000001,
            EvWrite 0x10 0x00000003]
         @ timeout_polls
         @ [EvLogE ''Failed to reset microprocessor'' [],
            EvLogE ''Failed to reset and run'' []]\<rparr>"
    by (simp add: ch32_program_def do_init_def do_reset_def stuck_target_def start_def
        ch32_halt_microprocessor_def halt_poll.simps do_write_def do_read_def emit_def
        ch32_unlock_flash_def ch32_read_memory_word_def ch32_write_memory_word_def
        ch32_write_cpu_reg_def ch32_read_cpu_reg_def ch32_run_debug_code_def
        ch32_write_flash_def write_flash_loop.simps ch32_reset_microprocessor_and_run_def
        reset_poll.simps upt_8 progbuf_word_def progbuf_bytes_def buffer_of_def
        ch32_readmem_def ch32_writemem_def le_word_def
        CH32_REG_DEBUG_DATA0_def CH32_REG_DEBUG_COMMAND_def CH32_REG_DEBUG_PROGBUF0_def
        CH32_REG_DEBUG_DMCONTROL_def CH32_REG_DEBUG_DMSTATUS_def CH32_REGS_GPR_def
        CH32_FLASH_CTLR_def
        timeout_polls_def mem_read_events_def mem_write_events_def progbuf_events_def)
qed

end
